theory Spec2Isabelle
  imports Main "HOL-Library.Word" "HOL-Library.AList"
begin

section \<open>Live-photo to motion-photo converter: a model of index.js\<close>

text \<open>
  The program is the interactive converter of \<^verbatim>\<open>index.js\<close> (lines 1 to 319): it pairs
  a JPEG (or a HEIC it first transcodes) with a MOV/MP4 of the same stem, writes the
  concatenation of the two files under an output directory and records the length of the
  video part in the XMP metadata of the result. The same file also holds an earlier
  command-line variant (lines 321 to 578) that declares the same top-level names; its
  merge is written with streams that finish after the function has returned. It is not
  what \<^verbatim>\<open>npm start\<close> runs and it is not modelled.

  Conventions of the model.
  \<^item> Strings are byte strings; \<^verbatim>\<open>toLowerCase\<close> maps the ASCII capitals only.
  \<^item> Paths are POSIX paths given in normal form (no \<^verbatim>\<open>.\<close> or \<^verbatim>\<open>..\<close> segment, no doubled
    or trailing separator); relative paths are relative to the working directory
    \<^verbatim>\<open>.\<close>, which always exists, as does the root.
  \<^item> The file system is an association list from paths to nodes; its order is the
    order in which \<^verbatim>\<open>readdirSync\<close> lists the entries.
  \<^item> Every function of the source that touches the file system, the console or the two
    global lists becomes a function from the state to an outcome and the next state.
    A thrown exception (a rejected promise) and \<^verbatim>\<open>process.exit\<close> are outcomes.
  \<^item> The program awaits every promise before it goes on, so its asynchronous
    functions are modelled as sequential ones.
\<close>

subsection \<open>Strings\<close>

definition lower_char :: "char \<Rightarrow> char" where
  "lower_char c =
     (let n = (of_char c :: nat) in if 65 \<le> n \<and> n \<le> 90 then char_of (n + 32) else c)"

definition toLowerCase :: "string \<Rightarrow> string" where
  "toLowerCase s = map lower_char s"

definition endsWith :: "string \<Rightarrow> string \<Rightarrow> bool" where
  "endsWith s t = (length t \<le> length s \<and> drop (length s - length t) s = t)"

definition startsWith :: "string \<Rightarrow> string \<Rightarrow> bool" where
  "startsWith s t = (take (length t) s = t)"

definition dropWhileEnd :: "('a \<Rightarrow> bool) \<Rightarrow> 'a list \<Rightarrow> 'a list" where
  "dropWhileEnd P xs = rev (dropWhile P (rev xs))"

definition is_space :: "char \<Rightarrow> bool" where
  "is_space c = (c \<in> set [CHR '' '', CHR 0x09, CHR 0x0A, CHR 0x0B, CHR 0x0C, CHR 0x0D])"

definition trim :: "string \<Rightarrow> string" where
  "trim s = dropWhileEnd is_space (dropWhile is_space s)"

definition digit_char :: "nat \<Rightarrow> char" where
  "digit_char d = char_of (48 + d)"

text \<open>The decimal rendering of a counter inside a template literal.\<close>

function show_nat :: "nat \<Rightarrow> string" where
  "show_nat n = (if n < 10 then [digit_char n] else show_nat (n div 10) @ [digit_char (n mod 10)])"
  by pat_completeness auto
termination
  by (relation "measure id") auto

declare show_nat.simps [simp del]

text \<open>\<^verbatim>\<open>Array.prototype.join\<close> on a list of strings.\<close>

fun join_with :: "string \<Rightarrow> string list \<Rightarrow> string" where
  "join_with sep [] = []"
| "join_with sep [x] = x"
| "join_with sep (x # y # ys) = x @ sep @ join_with sep (y # ys)"

subsection \<open>Paths (the \<^verbatim>\<open>path\<close> module, POSIX flavour)\<close>

definition is_sep :: "char \<Rightarrow> bool" where
  "is_sep c = (c = CHR ''/'')"

definition path_join :: "string \<Rightarrow> string \<Rightarrow> string" where
  "path_join d f =
     (if d = [] \<or> d = ''.'' then f
      else if f = [] then d
      else if is_sep (last d) then d @ f
      else d @ ''/'' @ f)"

definition path_basename :: "string \<Rightarrow> string" where
  "path_basename p = rev (takeWhile (\<lambda>c. \<not> is_sep c) (rev (dropWhileEnd is_sep p)))"

definition path_dirname :: "string \<Rightarrow> string" where
  "path_dirname p =
     (if p = [] then ''.''
      else
        let hasRoot = is_sep (hd p);
            r = dropWhile (\<lambda>c. \<not> is_sep c) (dropWhile is_sep (rev (tl p)))
        in if r = [] then (if hasRoot then ''/'' else ''.'')
           else if hasRoot \<and> length r = 1 then ''//''
           else take (length r) p)"

text \<open>
  \<^verbatim>\<open>path.extname\<close> of a base name: from the last dot to the end, and empty when there
  is no dot, when the only dot is the first character, or when the name is \<^verbatim>\<open>..\<close>.
\<close>

definition base_ext :: "string \<Rightarrow> string" where
  "base_ext b =
     (let e = takeWhile (\<lambda>c. c \<noteq> CHR ''.'') (rev b)
      in if CHR ''.'' \<notin> set b \<or> length e + 1 = length b \<or> b = ''..'' then []
         else drop (length b - (length e + 1)) b)"

definition path_extname :: "string \<Rightarrow> string" where
  "path_extname p = base_ext (path_basename p)"

text \<open>The \<^verbatim>\<open>name\<close> and \<^verbatim>\<open>ext\<close> fields of \<^verbatim>\<open>path.parse\<close>.\<close>

definition parse_ext :: "string \<Rightarrow> string" where
  "parse_ext p = path_extname p"

definition parse_name :: "string \<Rightarrow> string" where
  "parse_name p =
     (let b = path_basename p in take (length b - length (base_ext b)) b)"

subsection \<open>The state: file system, metadata store, console, global lists\<close>

type_synonym byte = "8 word"

datatype node = File "byte list" | Dir

datatype errno = ENOENT | EISDIR | ENOTDIR | EEXIST | EPERM

datatype error =
    FsError errno string
  | ConvertError string
  | MetadataWriteError string

datatype level = Log | Warn | Error

datatype io_event =
    ReadFile string
  | WriteFile string
  | Mkdir string
  | Readdir string
  | Unlink string
  | Rename string string
  | Transcode string string
  | ExifWrite string

record state =
  fs :: "(string \<times> node) list"
  xmp :: "string \<Rightarrow> string \<rightharpoonup> int"
  processedFiles :: "string list"
  problematicFiles :: "string list"
  console :: "(level \<times> string) list"
  io_log :: "io_event list"

datatype 'a outcome = Ok 'a | Threw error | Exited nat

type_synonym 'a io = "state \<Rightarrow> 'a outcome \<times> state"

definition ret :: "'a \<Rightarrow> 'a io" where
  "ret x s = (Ok x, s)"

definition throw :: "error \<Rightarrow> 'a io" where
  "throw e s = (Threw e, s)"

definition process_exit :: "nat \<Rightarrow> 'a io" where
  "process_exit n s = (Exited n, s)"

definition io_bind :: "'a io \<Rightarrow> ('a \<Rightarrow> 'b io) \<Rightarrow> 'b io" where
  "io_bind m f s =
     (case m s of
        (Ok x, s') \<Rightarrow> f x s'
      | (Threw e, s') \<Rightarrow> (Threw e, s')
      | (Exited n, s') \<Rightarrow> (Exited n, s'))"

definition io_then :: "unit io \<Rightarrow> 'b io \<Rightarrow> 'b io" where
  "io_then m k = io_bind m (\<lambda>_. k)"

text \<open>\<^verbatim>\<open>try { m } catch (error) { h error }\<close>: an exit is not an exception.\<close>

definition try_catch :: "'a io \<Rightarrow> (error \<Rightarrow> 'a io) \<Rightarrow> 'a io" where
  "try_catch m h s =
     (case m s of
        (Threw e, s') \<Rightarrow> h e s'
      | r \<Rightarrow> r)"

definition io_when :: "bool \<Rightarrow> unit io \<Rightarrow> unit io" where
  "io_when b m = (if b then m else ret ())"

definition say :: "level \<Rightarrow> string \<Rightarrow> unit io" where
  "say l msg s = (Ok (), s\<lparr>console := console s @ [(l, msg)]\<rparr>)"

definition record_io :: "io_event \<Rightarrow> unit io" where
  "record_io e s = (Ok (), s\<lparr>io_log := io_log s @ [e]\<rparr>)"

subsection \<open>The \<^verbatim>\<open>fs\<close> module\<close>

definition node_at :: "state \<Rightarrow> string \<Rightarrow> node option" where
  "node_at s p = (if p = ''.'' \<or> p = ''/'' then Some Dir else map_of (fs s) p)"

definition existsSync :: "state \<Rightarrow> string \<Rightarrow> bool" where
  "existsSync s p = (node_at s p \<noteq> None)"

definition isDirectory :: "state \<Rightarrow> string \<Rightarrow> bool" where
  "isDirectory s p = (node_at s p = Some Dir)"

definition put_node :: "string \<Rightarrow> node \<Rightarrow> unit io" where
  "put_node p n s = (Ok (), s\<lparr>fs := AList.update p n (fs s)\<rparr>)"

definition readFileSync :: "string \<Rightarrow> (byte list) io" where
  "readFileSync p s =
     (case node_at s p of
        None \<Rightarrow> throw (FsError ENOENT p) s
      | Some Dir \<Rightarrow> throw (FsError EISDIR p) s
      | Some (File b) \<Rightarrow> io_then (record_io (ReadFile p)) (ret b) s)"

definition writeFileSync :: "string \<Rightarrow> byte list \<Rightarrow> unit io" where
  "writeFileSync p b s =
     (case node_at s p of
        Some Dir \<Rightarrow> throw (FsError EISDIR p) s
      | _ \<Rightarrow>
         (case node_at s (path_dirname p) of
            None \<Rightarrow> throw (FsError ENOENT p) s
          | Some (File _) \<Rightarrow> throw (FsError ENOTDIR p) s
          | Some Dir \<Rightarrow> io_then (record_io (WriteFile p)) (put_node p (File b)) s))"

text \<open>
  The size that \<^verbatim>\<open>statSync\<close> reports. The size of a directory depends on the platform
  and is given as 0; the program never asks for it.
\<close>

definition statSync_size :: "string \<Rightarrow> nat io" where
  "statSync_size p s =
     (case node_at s p of
        None \<Rightarrow> throw (FsError ENOENT p) s
      | Some Dir \<Rightarrow> ret 0 s
      | Some (File b) \<Rightarrow> ret (length b) s)"

text \<open>The ancestors of a path, outermost first, then the path itself.\<close>

definition dir_prefixes :: "string \<Rightarrow> string list" where
  "dir_prefixes p = [take i p. i \<leftarrow> [1..<length p], is_sep (p ! i)] @ [p]"

definition mkdir_one :: "string \<Rightarrow> unit io" where
  "mkdir_one p s =
     (case node_at s p of
        Some Dir \<Rightarrow> ret () s
      | Some (File _) \<Rightarrow> throw (FsError EEXIST p) s
      | None \<Rightarrow> io_then (record_io (Mkdir p)) (put_node p Dir) s)"

fun mkdir_all :: "string list \<Rightarrow> unit io" where
  "mkdir_all [] = ret ()"
| "mkdir_all (p # ps) = io_then (mkdir_one p) (mkdir_all ps)"

text \<open>\<^verbatim>\<open>fs.mkdirSync(p, { recursive: true })\<close>.\<close>

definition mkdirSync_recursive :: "string \<Rightarrow> unit io" where
  "mkdirSync_recursive p s =
     (if isDirectory s p then ret () s else mkdir_all (dir_prefixes p) s)"

text \<open>The names listed for a directory, in the order of the file system.\<close>

definition dir_entries :: "state \<Rightarrow> string \<Rightarrow> string list" where
  "dir_entries s d = [path_basename q. (q, n) \<leftarrow> fs s, path_dirname q = d \<and> q \<noteq> d]"

definition readdirSync :: "string \<Rightarrow> (string list) io" where
  "readdirSync d s =
     (case node_at s d of
        None \<Rightarrow> throw (FsError ENOENT d) s
      | Some (File _) \<Rightarrow> throw (FsError ENOTDIR d) s
      | Some Dir \<Rightarrow> io_then (record_io (Readdir d)) (ret (dir_entries s d)) s)"

definition unlinkSync :: "string \<Rightarrow> unit io" where
  "unlinkSync p s =
     (case node_at s p of
        None \<Rightarrow> throw (FsError ENOENT p) s
      | Some Dir \<Rightarrow> throw (FsError EPERM p) s
      | Some (File _) \<Rightarrow>
          io_then (record_io (Unlink p)) (\<lambda>s. (Ok (), s\<lparr>fs := AList.delete p (fs s)\<rparr>)) s)"

text \<open>
  \<^verbatim>\<open>fs.renameSync(a, b)\<close>: the entry at \<^verbatim>\<open>a\<close>, and everything below it when it is a
  directory, moves to \<^verbatim>\<open>b\<close>; a file at \<^verbatim>\<open>b\<close> is replaced.
\<close>

definition moved :: "string \<Rightarrow> node \<Rightarrow> string \<Rightarrow> bool" where
  "moved a src q = (q = a \<or> (src = Dir \<and> startsWith q (a @ ''/'')))"

definition renameSync :: "string \<Rightarrow> string \<Rightarrow> unit io" where
  "renameSync a b s =
     (case node_at s a of
        None \<Rightarrow> throw (FsError ENOENT a) s
      | Some src \<Rightarrow>
         (case node_at s (path_dirname b) of
            None \<Rightarrow> throw (FsError ENOENT b) s
          | Some (File _) \<Rightarrow> throw (FsError ENOTDIR b) s
          | Some Dir \<Rightarrow>
             (case (src, node_at s b) of
                (_, Some Dir) \<Rightarrow> throw (FsError EISDIR b) s
              | (Dir, Some (File _)) \<Rightarrow> throw (FsError ENOTDIR b) s
              | _ \<Rightarrow>
                 io_then (record_io (Rename a b))
                   (\<lambda>s. (Ok (), s\<lparr>fs :=
                      map (\<lambda>(q, n). (if moved a src q then b @ drop (length a) q else q, n))
                        (AList.delete b (fs s))\<rparr>)) s)))"

subsection \<open>Validation\<close>

definition validateDirectory :: "string \<Rightarrow> bool io" where
  "validateDirectory dir s =
     (if dir = [] then io_then (say Error ''No directory path provided.'') (ret False) s
      else if \<not> existsSync s dir then
        io_then (say Error (''Directory does not exist: '' @ dir)) (ret False) s
      else if \<not> isDirectory s dir then
        io_then (say Error (''Path is not a directory: '' @ dir)) (ret False) s
      else ret True s)"

definition validateFile :: "string \<Rightarrow> bool io" where
  "validateFile filePath s =
     (if filePath = [] then io_then (say Error ''No file path provided.'') (ret False) s
      else if \<not> existsSync s filePath then
        io_then (say Error (''File does not exist: '' @ filePath)) (ret False) s
      else ret True s)"

definition validateMedia :: "string \<Rightarrow> string \<Rightarrow> bool io" where
  "validateMedia photoPath videoPath =
     io_bind (validateFile photoPath) (\<lambda>okPhoto.
       if \<not> okPhoto then io_then (say Error ''Invalid photo path.'') (ret False)
       else io_bind (validateFile videoPath) (\<lambda>okVideo.
         if \<not> okVideo then io_then (say Error ''Invalid video path.'') (ret False)
         else if \<not> endsWith (toLowerCase photoPath) ''.jpg'' \<and>
                 \<not> endsWith (toLowerCase photoPath) ''.jpeg'' then
           io_then (say Error (''Photo isn't a JPEG: '' @ photoPath)) (ret False)
         else if \<not> endsWith (toLowerCase videoPath) ''.mov'' \<and>
                 \<not> endsWith (toLowerCase videoPath) ''.mp4'' then
           io_then (say Error (''Video isn't a MOV or MP4: '' @ videoPath)) (ret False)
         else ret True))"

subsection \<open>The muxer\<close>

definition push_processed :: "string list \<Rightarrow> unit io" where
  "push_processed ps s = (Ok (), s\<lparr>processedFiles := processedFiles s @ ps\<rparr>)"

definition mergeFiles :: "string \<Rightarrow> string \<Rightarrow> string \<Rightarrow> string io" where
  "mergeFiles photoPath videoPath outputPath =
     io_then (say Log (''Merging '' @ photoPath @ '' and '' @ videoPath @ ''.''))
       (let outPath = path_join outputPath (path_basename photoPath) in
        io_then (mkdirSync_recursive (path_dirname outPath))
          (io_bind (readFileSync photoPath) (\<lambda>photoData.
           io_bind (readFileSync videoPath) (\<lambda>videoData.
           io_then (writeFileSync outPath (photoData @ videoData))
             (io_then (push_processed [photoPath, videoPath])
               (ret outPath))))))"

subsection \<open>External collaborators\<close>

text \<open>
  The HEIC transcoder (\<^verbatim>\<open>heic-jpg-exif\<close>) and the metadata tool (\<^verbatim>\<open>exiftool-vendored\<close>)
  are libraries outside the repository. They are parameters of the model:
  \<^item> \<open>heicconvert\<close> maps the bytes of a HEIC to the bytes of the JPEG, or fails;
  \<^item> \<open>exif_embed\<close> maps the bytes of a file and the tags to write to the bytes of the
    rewritten file, or fails;
  \<^item> \<open>exif_backup\<close> says whether a successful write leaves the previous content in a
    sidecar named after the file with \<^verbatim>\<open>_original\<close> appended.
\<close>

record services =
  heicconvert :: "byte list \<Rightarrow> byte list option"
  exif_embed :: "byte list \<Rightarrow> (string \<times> int) list \<Rightarrow> byte list option"
  exif_backup :: bool

fun errno_name :: "errno \<Rightarrow> string" where
  "errno_name ENOENT = ''ENOENT''"
| "errno_name EISDIR = ''EISDIR''"
| "errno_name ENOTDIR = ''ENOTDIR''"
| "errno_name EEXIST = ''EEXIST''"
| "errno_name EPERM = ''EPERM''"

fun error_message :: "error \<Rightarrow> string" where
  "error_message (FsError e p) = errno_name e @ '': '' @ p"
| "error_message (ConvertError p) = ''cannot convert '' @ p"
| "error_message (MetadataWriteError p) = ''cannot write metadata of '' @ p"

text \<open>\<^verbatim>\<open>await heicconvert(heicPath, jpegPath, 1)\<close>.\<close>

definition heicconvert_call :: "services \<Rightarrow> string \<Rightarrow> string \<Rightarrow> unit io" where
  "heicconvert_call svc src dst s =
     (case node_at s src of
        Some (File b) \<Rightarrow>
          (case heicconvert svc b of
             None \<Rightarrow> throw (ConvertError src) s
           | Some j \<Rightarrow> io_then (record_io (Transcode src dst)) (writeFileSync dst j) s)
      | _ \<Rightarrow> throw (ConvertError src) s)"

text \<open>
  Modelled from the spec: the embedded-metadata service is external. By section 6 of the
  specification it is a key/value store attached to a file path: \<^verbatim>\<open>write(path, mapping)\<close>
  sets the keys of the mapping and keeps the others, or fails, and a successful write may
  leave a \<^verbatim>\<open>_original\<close> sidecar. The store is the component \<open>xmp\<close> of the state.
\<close>

definition exiftool_write :: "services \<Rightarrow> string \<Rightarrow> (string \<times> int) list \<Rightarrow> unit io" where
  "exiftool_write svc p tags s =
     (case node_at s p of
        Some (File b) \<Rightarrow>
          (case exif_embed svc b tags of
             None \<Rightarrow> throw (MetadataWriteError p) s
           | Some b' \<Rightarrow>
               io_then (record_io (ExifWrite p))
                (io_then (\<lambda>s. io_when (exif_backup svc \<and> \<not> existsSync s (p @ ''_original''))
                                 (put_node (p @ ''_original'') (File b)) s)
                (io_then (put_node p (File b'))
                  (\<lambda>s. (Ok (), s\<lparr>xmp := (xmp s)(p := xmp s p ++ map_of tags)\<rparr>)))) s)
      | _ \<Rightarrow> throw (MetadataWriteError p) s)"

subsection \<open>Transcoding a HEIC\<close>

definition push_problematic :: "string \<Rightarrow> unit io" where
  "push_problematic p s = (Ok (), s\<lparr>problematicFiles := problematicFiles s @ [p]\<rparr>)"

definition convertHeicToJpeg :: "services \<Rightarrow> string \<Rightarrow> (string option) io" where
  "convertHeicToJpeg svc heicPath =
     io_then (say Log (''Converting HEIC file to JPEG: '' @ heicPath))
       (try_catch
          (let jpegPath = parse_name heicPath @ ''.jpg'' in
           io_then (heicconvert_call svc heicPath jpegPath)
             (io_then (say Log (''HEIC file converted to JPEG: '' @ jpegPath))
               (io_then (push_processed [heicPath])
                 (ret (Some jpegPath)))))
          (\<lambda>error.
            io_then (say Warn (''Error converting HEIC file: '' @ heicPath @ '': '' @
                               error_message error))
              (io_then (push_problematic heicPath)
                (ret None))))"

subsection \<open>The offset annotator\<close>

text \<open>The object literal that \<^verbatim>\<open>addXmpMetadata\<close> hands to \<^verbatim>\<open>exiftool.write\<close>.\<close>

definition motion_tags :: "int \<Rightarrow> (string \<times> int) list" where
  "motion_tags offset =
     [(''XMP:MicroVideo'', 1),
      (''XMP:MicroVideoVersion'', 1),
      (''XMP:MicroVideoOffset'', offset),
      (''XMP:MicroVideoPresentationTimestampUs'', 1500000)]"

definition addXmpMetadata :: "services \<Rightarrow> string \<Rightarrow> int \<Rightarrow> unit io" where
  "addXmpMetadata svc mergedFile offset =
     io_then
       (exiftool_write svc mergedFile (motion_tags offset))
       (try_catch (unlinkSync (mergedFile @ ''_original''))
          (\<lambda>error. say Warn (''Failed to delete '' @ error_message error)))"

definition createMotionPhoto :: "services \<Rightarrow> string \<Rightarrow> string \<Rightarrow> string \<Rightarrow> unit io" where
  "createMotionPhoto svc photoPath videoPath outputPath =
     io_bind (validateMedia photoPath videoPath) (\<lambda>valid.
       if \<not> valid then say Error ''Invalid photo or video path.''
       else
         io_bind (mergeFiles photoPath videoPath outputPath) (\<lambda>merged.
         io_bind (statSync_size photoPath) (\<lambda>photoFilesize.
         io_bind (statSync_size merged) (\<lambda>mergedFilesize.
           let offset = int mergedFilesize - int photoFilesize
           in addXmpMetadata svc merged offset))))"

subsection \<open>The pair resolver\<close>

definition is_candidate :: "string \<Rightarrow> string \<Rightarrow> bool" where
  "is_candidate base file =
     (startsWith file base \<and>
      (endsWith (toLowerCase file) ''.mov'' \<or> endsWith (toLowerCase file) ''.mp4''))"

fun matchingVideo_loop :: "string \<Rightarrow> string \<Rightarrow> string list \<Rightarrow> string option" where
  "matchingVideo_loop base videoDir [] = None"
| "matchingVideo_loop base videoDir (file # files) =
     (if is_candidate base file then Some (path_join videoDir file)
      else matchingVideo_loop base videoDir files)"

definition matchingVideo :: "string \<Rightarrow> string \<Rightarrow> (string option) io" where
  "matchingVideo photoPath videoDir =
     (let base = parse_name photoPath in
      io_bind (readdirSync videoDir) (\<lambda>files.
        ret (matchingVideo_loop base videoDir files)))"

subsection \<open>Collision-free names for moved files\<close>

text \<open>
  The loop of \<^verbatim>\<open>uniquePath\<close> ends because the names it tries are pairwise different and
  the file system is finite. The decimal rendering is injective: \<open>read_nat\<close> reads it back.
\<close>

definition read_nat :: "string \<Rightarrow> nat" where
  "read_nat ds = foldl (\<lambda>a c. 10 * a + (of_char c - 48)) 0 ds"

lemma read_nat_snoc: "read_nat (ds @ [c]) = 10 * read_nat ds + (of_char c - 48)"
  by (simp add: read_nat_def)

lemma of_digit_char: "d < 10 \<Longrightarrow> (of_char (digit_char d) :: nat) - 48 = d"
  by (simp add: digit_char_def of_char_of)

lemma read_show_nat: "read_nat (show_nat n) = n"
proof (induction n rule: show_nat.induct)
  case (1 n)
  show ?case
  proof (cases "n < 10")
    case True
    then show ?thesis by (simp add: show_nat.simps[of n] read_nat_def of_digit_char)
  next
    case False
    then have "read_nat (show_nat n) = 10 * (n div 10) + n mod 10"
      using 1 by (simp add: show_nat.simps[of n] read_nat_snoc of_digit_char)
    then show ?thesis by simp
  qed
qed

lemma inj_show_nat: "inj show_nat"
  by (metis injI read_show_nat)

definition candidate_name :: "string \<Rightarrow> string \<Rightarrow> nat \<Rightarrow> string" where
  "candidate_name name ext counter = name @ ''('' @ show_nat counter @ '')'' @ ext"

lemma inj_candidate_name: "inj (candidate_name name ext)"
  using inj_show_nat by (auto simp: candidate_name_def inj_def)

lemma candidate_name_nonempty: "candidate_name name ext k \<noteq> []"
  by (simp add: candidate_name_def)

lemma path_join_inj:
  assumes "path_join d f = path_join d g" "f \<noteq> []" "g \<noteq> []"
  shows "f = g"
  using assms by (auto simp: path_join_def split: if_splits)

lemma inj_join_candidate: "inj (\<lambda>k. path_join d (candidate_name name ext k))"
  by (metis (mono_tags, lifting) injI injD inj_candidate_name path_join_inj candidate_name_nonempty)

lemma existsSync_iff: "existsSync s p \<longleftrightarrow> p \<in> {''.'', ''/''} \<union> fst ` set (fs s)"
proof -
  have "map_of (fs s) p \<noteq> None \<longleftrightarrow> p \<in> fst ` set (fs s)"
    by (simp add: map_of_eq_None_iff)
  then show ?thesis by (auto simp: existsSync_def node_at_def)
qed

lemma finite_taken:
  "finite {k. existsSync s (path_join d (candidate_name name ext k))}"
proof -
  have "{k. existsSync s (path_join d (candidate_name name ext k))} =
        (\<lambda>k. path_join d (candidate_name name ext k)) -` ({''.'', ''/''} \<union> fst ` set (fs s))"
    by (auto simp: existsSync_iff)
  then show ?thesis by (simp add: finite_vimageI inj_join_candidate)
qed

definition taken_from :: "state \<Rightarrow> string \<Rightarrow> string \<Rightarrow> string \<Rightarrow> nat \<Rightarrow> nat set" where
  "taken_from s d name ext counter =
     {k. counter \<le> k \<and> existsSync s (path_join d (candidate_name name ext k))}"

lemma finite_taken_from: "finite (taken_from s d name ext counter)"
  unfolding taken_from_def using finite_taken[of s d name ext]
  by (rule rev_finite_subset) auto

text \<open>
  The \<^verbatim>\<open>while\<close> loop of \<^verbatim>\<open>uniquePath\<close>, with its two variables \<^verbatim>\<open>counter\<close> and
  \<^verbatim>\<open>newFilename\<close>. The measure counts the names still to try that exist.
\<close>

function uniquePath_loop :: "state \<Rightarrow> string \<Rightarrow> string \<Rightarrow> string \<Rightarrow> nat \<Rightarrow> string \<Rightarrow> string" where
  "uniquePath_loop s destination name ext counter newFilename =
     (if existsSync s (path_join destination newFilename)
      then uniquePath_loop s destination name ext (counter + 1)
             (name @ ''('' @ show_nat counter @ '')'' @ ext)
      else path_join destination newFilename)"
  by pat_completeness auto
termination
proof (relation "measure (\<lambda>(s, d, name, ext, counter, newFilename).
          card (taken_from s d name ext counter) +
          (if existsSync s (path_join d newFilename) then 1 else 0))", goal_cases)
  case 1
  show ?case by simp
next
  case (2 s d name ext counter newFilename)
  let ?c = "name @ ''('' @ show_nat counter @ '')'' @ ext"
  have c: "?c = candidate_name name ext counter" by (simp add: candidate_name_def)
  have split: "taken_from s d name ext counter =
      (if existsSync s (path_join d ?c) then {counter} else {}) \<union>
      taken_from s d name ext (counter + 1)"
    unfolding taken_from_def c
    by (auto simp: Suc_le_eq intro: le_neq_implies_less)
  have notin: "counter \<notin> taken_from s d name ext (counter + 1)"
    by (simp add: taken_from_def)
  have "card (taken_from s d name ext counter) =
        card (taken_from s d name ext (counter + 1)) +
        (if existsSync s (path_join d ?c) then 1 else 0)"
    using notin finite_taken_from[of s d name ext "counter + 1"]
    by (subst split) simp
  with 2 show ?case by simp
qed

declare uniquePath_loop.simps [simp del]

definition uniquePath :: "state \<Rightarrow> string \<Rightarrow> string \<Rightarrow> string" where
  "uniquePath s destination filename =
     uniquePath_loop s destination (parse_name filename) (parse_ext filename) 1 filename"

subsection \<open>The batch\<close>

text \<open>The body of the first \<^verbatim>\<open>for\<close> loop of \<^verbatim>\<open>processDirectory\<close>; it returns the counter.\<close>

definition deleteConvertedHeic :: "bool \<Rightarrow> string \<Rightarrow> unit io" where
  "deleteConvertedHeic deleteConverted filePath s =
     (if deleteConverted \<and> existsSync s filePath then
        try_catch
          (io_then (unlinkSync filePath)
             (say Log (''Deleted converted HEIC file: '' @ filePath)))
          (\<lambda>error. say Warn (''Failed to delete file '' @ filePath @ '': '' @
                              error_message error)) s
      else ret () s)"

definition processEntry ::
  "services \<Rightarrow> string \<Rightarrow> string \<Rightarrow> bool \<Rightarrow> bool \<Rightarrow> string \<Rightarrow> nat \<Rightarrow> nat io" where
  "processEntry svc inputDir outputDir convertAllHeic deleteConverted file matchingPairs =
     (let filePath = path_join inputDir file in
      if endsWith (toLowerCase file) ''.heic'' then
        io_bind (if convertAllHeic then ret True
                 else io_bind (matchingVideo filePath inputDir) (\<lambda>v. ret (v \<noteq> None))) (\<lambda>go.
          if \<not> go then ret matchingPairs
          else
            io_bind (convertHeicToJpeg svc filePath) (\<lambda>converted.
            io_bind
              (case converted of
                 None \<Rightarrow> ret matchingPairs
               | Some jpegPath \<Rightarrow>
                   io_bind (matchingVideo jpegPath inputDir) (\<lambda>found.
                     case found of
                       None \<Rightarrow> ret matchingPairs
                     | Some videoPath \<Rightarrow>
                         io_then (createMotionPhoto svc jpegPath videoPath outputDir)
                           (io_then (unlinkSync jpegPath)
                             (ret (matchingPairs + 1))))) (\<lambda>pairs.
            io_then (deleteConvertedHeic deleteConverted filePath)
              (ret pairs))))
      else if endsWith (toLowerCase file) ''.jpg'' \<or> endsWith (toLowerCase file) ''.jpeg'' then
        io_bind (matchingVideo filePath inputDir) (\<lambda>found.
          case found of
            None \<Rightarrow> ret matchingPairs
          | Some videoPath \<Rightarrow>
              io_then (createMotionPhoto svc filePath videoPath outputDir)
                (ret (matchingPairs + 1)))
      else ret matchingPairs)"

fun processEntries ::
  "services \<Rightarrow> string \<Rightarrow> string \<Rightarrow> bool \<Rightarrow> bool \<Rightarrow> string list \<Rightarrow> nat \<Rightarrow> nat io" where
  "processEntries svc inputDir outputDir convertAllHeic deleteConverted [] matchingPairs =
     ret matchingPairs"
| "processEntries svc inputDir outputDir convertAllHeic deleteConverted (file # files) matchingPairs =
     io_bind (processEntry svc inputDir outputDir convertAllHeic deleteConverted file matchingPairs)
       (processEntries svc inputDir outputDir convertAllHeic deleteConverted files)"

text \<open>The body of the second loop, which moves the files that were not processed.\<close>

definition moveOther :: "string \<Rightarrow> string \<Rightarrow> string \<Rightarrow> unit io" where
  "moveOther inputDir otherFilesDir file s =
     (let filePath = path_join inputDir file in
      if toLowerCase (path_extname file) \<in>
           set [''.heic'', ''.jpg'', ''.jpeg'', ''.mov'', ''.mp4'', ''.png'', ''.gif''] \<and>
         filePath \<notin> set (processedFiles s)
      then
        (let uniqueFilePath = uniquePath s otherFilesDir (path_basename filePath) in
         io_then (renameSync filePath uniqueFilePath)
           (say Log (''Moved '' @ path_basename uniqueFilePath @ '' to output directory.''))) s
      else ret () s)"

fun moveOthers :: "string \<Rightarrow> string \<Rightarrow> string list \<Rightarrow> unit io" where
  "moveOthers inputDir otherFilesDir [] = ret ()"
| "moveOthers inputDir otherFilesDir (file # files) =
     io_then (moveOther inputDir otherFilesDir file) (moveOthers inputDir otherFilesDir files)"

definition processDirectory ::
  "services \<Rightarrow> string \<Rightarrow> string \<Rightarrow> bool \<Rightarrow> bool \<Rightarrow> bool \<Rightarrow> unit io" where
  "processDirectory svc inputDir outputDir moveOtherImages convertAllHeic deleteConverted =
     io_then (say Log (''Processing files in: '' @ inputDir))
    (io_bind (validateDirectory inputDir) (\<lambda>inputOk.
     io_then (io_when (\<not> inputOk)
                (io_then (say Error ''Invalid input directory.'') (process_exit 1)))
    (io_bind (validateDirectory outputDir) (\<lambda>outputOk.
     io_then (io_when (\<not> outputOk)
                (io_then (say Error ''Invalid output directory.'') (process_exit 1)))
    (io_bind (readdirSync inputDir) (\<lambda>files.
     io_bind (processEntries svc inputDir outputDir convertAllHeic deleteConverted files 0)
       (\<lambda>matchingPairs.
     io_then (say Log ''Conversion complete.'')
    (io_then (say Log (''Found '' @ show_nat matchingPairs @
                       '' matching HEIC/JPEG and MOV/MP4 pairs.''))
    (io_then (io_when moveOtherImages
                (let otherFilesDir = path_join outputDir ''other_files'' in
                 io_then (mkdirSync_recursive otherFilesDir)
                   (moveOthers inputDir otherFilesDir files)))
       (say Log ''Cleanup complete.''))))))))))"

subsection \<open>The entry point\<close>

text \<open>The five answers typed at the prompts, in the order in which they are asked.\<close>

record answers =
  inputDirAnswer :: string
  outputDirAnswer :: string
  moveOtherImagesAnswer :: string
  convertAllHeicAnswer :: string
  deleteConvertedAnswer :: string

definition bytes_of :: "string \<Rightarrow> byte list" where
  "bytes_of str = map (\<lambda>c. of_nat (of_char c)) str"

definition report_header :: string where
  "report_header = ''The following files encountered errors during conversion:''"

fun warn_each :: "string list \<Rightarrow> unit io" where
  "warn_each [] = ret ()"
| "warn_each (filePath # rest) = io_then (say Warn filePath) (warn_each rest)"

definition writeProblemReport :: "unit io" where
  "writeProblemReport s =
     (if problematicFiles s \<noteq> [] then
        io_then (say Warn report_header)
          (io_then (warn_each (problematicFiles s))
            (writeFileSync ''problematic_files.txt''
               (bytes_of (report_header @ [CHR 0x0A] @
                          join_with [CHR 0x0A] (problematicFiles s))))) s
      else ret () s)"

definition main :: "services \<Rightarrow> answers \<Rightarrow> unit io" where
  "main svc ans =
     io_then (say Log (''Welcome to the Apple Live Photos to Google Motion Photos converter.'' @
                       [CHR 0x0A]))
       (let inputDir = (if trim (inputDirAnswer ans) = [] then ''photos''
                        else trim (inputDirAnswer ans)) in
        io_bind (validateDirectory inputDir) (\<lambda>inputOk.
        io_then (io_when (\<not> inputOk)
                   (io_then (say Error ''Invalid directory path.'') (process_exit 1)))
          (let outputDir = (if trim (outputDirAnswer ans) = [] then ''output''
                            else trim (outputDirAnswer ans));
               moveOtherImages = (toLowerCase (trim (moveOtherImagesAnswer ans)) = ''y'');
               convertAllHeic = (toLowerCase (trim (convertAllHeicAnswer ans)) = ''y'');
               deleteConverted = (toLowerCase (trim (deleteConvertedAnswer ans)) = ''y'')
           in io_then (processDirectory svc inputDir outputDir moveOtherImages
                         convertAllHeic deleteConverted)
               (io_then writeProblemReport
                 (process_exit 0)))))"

subsection \<open>Predicates of the statements and sample inputs\<close>

text \<open>A directory path in normal form: not empty, and no trailing separator but for the root.\<close>

definition normal_dir :: "string \<Rightarrow> bool" where
  "normal_dir d = (d \<noteq> [] \<and> (d = ''/'' \<or> \<not> is_sep (last d)))"

text \<open>A small file system used to run the functions: one pair in \<^verbatim>\<open>photos\<close>.\<close>

definition demo :: state where
  "demo = \<lparr>fs = [(''photos'', Dir), (''output'', Dir),
                 (''photos/IMG_0001.jpg'', File [1, 2, 3]),
                 (''photos/IMG_0001.mov'', File [4, 5])],
            xmp = (\<lambda>_. Map.empty), processedFiles = [], problematicFiles = [],
            console = [], io_log = []\<rparr>"

text \<open>
  A relation between the state before and the state after holds along a computation
  when every step keeps it; the relation must be reflexive and transitive.
\<close>

definition preserves :: "(state \<Rightarrow> state \<Rightarrow> bool) \<Rightarrow> 'a io \<Rightarrow> bool" where
  "preserves R m = (\<forall>s. R s (snd (m s)))"

text \<open>
  Outside the set \<open>X\<close> of paths, the second file system keeps every entry of the first
  and adds directories only.
\<close>

definition frame :: "string set \<Rightarrow> state \<Rightarrow> state \<Rightarrow> bool" where
  "frame X s s' =
     (\<forall>q. q \<notin> X \<longrightarrow>
        (case node_at s q of
           Some n \<Rightarrow> node_at s' q = Some n
         | None \<Rightarrow> node_at s' q = None \<or> node_at s' q = Some Dir))"

text \<open>
  Services used to run the functions: the transcoder copies its input, the metadata
  tool appends one byte to the file it rewrites and leaves a sidecar.
\<close>

definition demo_services :: services where
  "demo_services = \<lparr>heicconvert = (\<lambda>b. Some b),
                     exif_embed = (\<lambda>b tags. Some (b @ [0])),
                     exif_backup = True\<rparr>"

text \<open>A directory with two candidate videos for one still.\<close>

definition demo_two_videos :: state where
  "demo_two_videos =
     \<lparr>fs = [(''photos'', Dir), (''output'', Dir),
            (''photos/IMG_0001.jpg'', File [1, 2, 3]),
            (''photos/IMG_0001.txt'', File [9]),
            (''photos/IMG_0001_edited.MP4'', File [6, 7]),
            (''photos/IMG_0001.mov'', File [4, 5])],
       xmp = (\<lambda>_. Map.empty), processedFiles = [], problematicFiles = [],
       console = [], io_log = []\<rparr>"

text \<open>A file system in which the name of an unmatched file is taken twice.\<close>

definition demo_taken :: state where
  "demo_taken =
     \<lparr>fs = [(''photos'', Dir), (''output'', Dir), (''output/other_files'', Dir),
            (''photos/B.jpg'', File [1]),
            (''output/other_files/B.jpg'', File [7]),
            (''output/other_files/B(1).jpg'', File [8])],
       xmp = (\<lambda>_. Map.empty), processedFiles = [], problematicFiles = [],
       console = [], io_log = []\<rparr>"

text \<open>The first line that \<open>main\<close> prints, and answers that take every default.\<close>

definition welcome_line :: string where
  "welcome_line = ''Welcome to the Apple Live Photos to Google Motion Photos converter.'' @ [CHR 0x0A]"

definition demo_answers :: answers where
  "demo_answers = \<lparr>inputDirAnswer = ''photos'', outputDirAnswer = ''output'',
                    moveOtherImagesAnswer = ''n'', convertAllHeicAnswer = ''n'',
                    deleteConvertedAnswer = ''n''\<rparr>"

text \<open>
  Answers that name the directory of the stills as the output directory, and answers
  that ask for the other files to be moved and for the converted HEICs to be deleted.
\<close>

definition same_directory_answers :: answers where
  "same_directory_answers = demo_answers\<lparr>outputDirAnswer := ''photos''\<rparr>"

definition move_and_delete_answers :: answers where
  "move_and_delete_answers =
     demo_answers\<lparr>moveOtherImagesAnswer := ''y'', deleteConvertedAnswer := ''y''\<rparr>"

text \<open>Services of which the metadata tool always fails, and a transcoder that always fails.\<close>

definition failing_exiftool :: services where
  "failing_exiftool = \<lparr>heicconvert = (\<lambda>b. Some b),
                        exif_embed = (\<lambda>b tags. None),
                        exif_backup = False\<rparr>"

definition failing_transcoder :: services where
  "failing_transcoder = \<lparr>heicconvert = (\<lambda>b. None),
                          exif_embed = (\<lambda>b tags. Some (b @ [0])),
                          exif_backup = True\<rparr>"

text \<open>A directory with one pair and one HEIC that has a video.\<close>

definition demo_heic :: state where
  "demo_heic =
     \<lparr>fs = [(''photos'', Dir), (''output'', Dir),
            (''photos/A.heic'', File [9, 9]),
            (''photos/A.mov'', File [6]),
            (''photos/IMG_0001.jpg'', File [1, 2, 3]),
            (''photos/IMG_0001.mov'', File [4, 5])],
       xmp = (\<lambda>_. Map.empty), processedFiles = [], problematicFiles = [],
       console = [], io_log = []\<rparr>"

section \<open>Basic facts\<close>

lemmas io_defs = ret_def throw_def process_exit_def io_bind_def io_then_def try_catch_def
  io_when_def say_def record_io_def put_node_def push_processed_def

lemma node_at_update:
  "node_at (s\<lparr>fs := AList.update p n f\<rparr>) q =
     (if q = ''.'' \<or> q = ''/'' then Some Dir else if q = p then Some n
      else node_at (s\<lparr>fs := f\<rparr>) q)"
  by (simp add: node_at_def update_conv')

lemma node_at_fs_same [simp]: "node_at (s\<lparr>fs := fs s\<rparr>) q = node_at s q"
  by (simp add: node_at_def)

lemma node_at_console [simp]: "node_at (s\<lparr>console := c\<rparr>) q = node_at s q"
  by (simp add: node_at_def)
lemma node_at_io_log [simp]: "node_at (s\<lparr>io_log := c\<rparr>) q = node_at s q"
  by (simp add: node_at_def)
lemma node_at_processed [simp]: "node_at (s\<lparr>processedFiles := c\<rparr>) q = node_at s q"
  by (simp add: node_at_def)
lemma node_at_problematic [simp]: "node_at (s\<lparr>problematicFiles := c\<rparr>) q = node_at s q"
  by (simp add: node_at_def)
lemma node_at_xmp [simp]: "node_at (s\<lparr>xmp := c\<rparr>) q = node_at s q"
  by (simp add: node_at_def)

lemma basename_no_sep: "\<forall>c \<in> set (path_basename p). \<not> is_sep c"
  unfolding path_basename_def
  by (metis (mono_tags, lifting) set_rev set_takeWhileD)

lemma dirname_simple:
  assumes "f \<noteq> []" "\<forall>c \<in> set f. \<not> is_sep c"
  shows "path_dirname f = ''.''"
proof -
  have "\<forall>c \<in> set (dropWhile is_sep (rev (tl f))). \<not> is_sep c"
    using assms by (metis list.set_sel(2) set_dropWhileD set_rev tl_Nil)
  then have "dropWhile (\<lambda>c. \<not> is_sep c) (dropWhile is_sep (rev (tl f))) = []"
    by (simp add: dropWhile_eq_Nil_conv)
  moreover have "\<not> is_sep (hd f)" using assms by (cases f) auto
  ultimately show ?thesis using assms by (simp add: path_dirname_def)
qed

lemma dirname_append:
  assumes "d \<noteq> []" "\<not> is_sep (last d)" "f \<noteq> []" "\<forall>c \<in> set f. \<not> is_sep c"
  shows "path_dirname (d @ ''/'' @ f) = d"
proof -
  obtain a d' where d: "d = a # d'" using assms(1) by (cases d) auto
  have f1: "dropWhile is_sep (rev f @ CHR ''/'' # rev d') = rev f @ CHR ''/'' # rev d'"
    using assms(3,4) by (cases "rev f") (auto dest!: arg_cong[where f=set])
  have f2: "dropWhile (\<lambda>c. \<not> is_sep c) (rev f @ CHR ''/'' # rev d') = CHR ''/'' # rev d'"
    using assms(4) by (simp add: dropWhile_append3 is_sep_def dropWhile_append2)
  have "\<not> (is_sep a \<and> d' = [])" using assms(2) d by auto
  then show ?thesis
    by (simp add: path_dirname_def d f1 f2 Let_def)
qed

lemma dirname_root:
  assumes "f \<noteq> []" "\<forall>c \<in> set f. \<not> is_sep c"
  shows "path_dirname (''/'' @ f) = ''/''"
proof -
  have "\<forall>c \<in> set (dropWhile is_sep (rev f)). \<not> is_sep c"
    using assms by (metis set_dropWhileD set_rev)
  then have "dropWhile (\<lambda>c. \<not> is_sep c) (dropWhile is_sep (rev f)) = []"
    by (simp add: dropWhile_eq_Nil_conv)
  then show ?thesis by (simp add: path_dirname_def is_sep_def)
qed

lemma isDirectory_dot [simp]: "isDirectory s ''.''" "isDirectory s ''/''"
  by (simp_all add: isDirectory_def node_at_def)

lemma dir_of_join:
  assumes "normal_dir d" "f \<noteq> []" "\<forall>c \<in> set f. \<not> is_sep c" "isDirectory s d"
  shows "isDirectory s (path_dirname (path_join d f))"
proof (cases "d = ''.''")
  case True
  then show ?thesis using assms by (simp add: path_join_def dirname_simple)
next
  case False
  show ?thesis
  proof (cases "d = ''/''")
    case True
    then show ?thesis using assms dirname_root[of f] by (simp add: path_join_def is_sep_def)
  next
    case False
    then have "\<not> is_sep (last d)" "d \<noteq> []" using assms(1) by (auto simp: normal_dir_def)
    then show ?thesis using assms \<open>d \<noteq> ''.''\<close> dirname_append[of d f]
      by (simp add: path_join_def)
  qed
qed

lemma lower_char_sep: "is_sep c \<Longrightarrow> is_sep (lower_char c)"
  by (simp add: lower_char_def is_sep_def)

lemma endsWith_last:
  assumes "endsWith (toLowerCase p) t" "t \<noteq> []" "\<not> is_sep (last t)"
  shows "p \<noteq> [] \<and> \<not> is_sep (last p)"
proof -
  let ?l = "toLowerCase p"
  from assms(1) have d: "drop (length ?l - length t) ?l = t" and "length t \<le> length ?l"
    by (auto simp: endsWith_def)
  with assms(2) have ne: "p \<noteq> []" by (auto simp: toLowerCase_def)
  have "last ?l = last t" using d assms(2) by (metis last_drop drop_eq_Nil not_le)
  then have "\<not> is_sep (lower_char (last p))"
    using ne assms(3) by (simp add: toLowerCase_def last_map)
  with ne show ?thesis using lower_char_sep[of "last p"] by auto
qed

lemma basename_nonempty:
  assumes "p \<noteq> []" "\<not> is_sep (last p)"
  shows "path_basename p \<noteq> []"
proof -
  obtain x xs where r: "rev p = x # xs" "\<not> is_sep x"
    using assms by (metis last_rev list.exhaust_sel rev_is_Nil_conv rev_rev_ident hd_rev)
  then show ?thesis by (simp add: path_basename_def dropWhileEnd_def)
qed

lemma validateMedia_True:
  assumes "fst (validateMedia photoPath videoPath s) = Ok True"
  shows "validateMedia photoPath videoPath s = (Ok True, s)"
    and "existsSync s photoPath" and "existsSync s videoPath"
    and "endsWith (toLowerCase photoPath) ''.jpg'' \<or> endsWith (toLowerCase photoPath) ''.jpeg''"
    and "endsWith (toLowerCase videoPath) ''.mov'' \<or> endsWith (toLowerCase videoPath) ''.mp4''"
  using assms
  by (auto simp: validateMedia_def validateFile_def io_defs split: if_splits)

lemma valid_photo_basename:
  assumes "fst (validateMedia photoPath videoPath s) = Ok True"
  shows "path_basename photoPath \<noteq> []"
proof -
  from validateMedia_True(4)[OF assms]
  have "photoPath \<noteq> [] \<and> \<not> is_sep (last photoPath)"
    using endsWith_last[of photoPath "''.jpg''"] endsWith_last[of photoPath "''.jpeg''"]
    by (auto simp: is_sep_def)
  then show ?thesis by (simp add: basename_nonempty)
qed

section \<open>The muxer writes the still followed by the video\<close>

text \<open>
  Claim C1. For a valid pair (\<open>validateMedia\<close> accepts it and both paths are regular
  files) and an existing output directory under which the derived output path is not a
  directory, \<open>mergeFiles\<close> returns the derived output path
  \<open>path_join outputPath (path_basename photoPath)\<close>, the file there holds exactly the
  bytes of the still followed by the bytes of the video, and the size that \<open>statSync\<close>
  reports for it is the sum of the two lengths.
\<close>

theorem mergeFiles_concat:
  assumes valid: "fst (validateMedia photoPath videoPath s) = Ok True"
    and photo: "node_at s photoPath = Some (File p)"
    and video: "node_at s videoPath = Some (File v)"
    and out: "normal_dir outputPath" "isDirectory s outputPath"
    and nodir: "\<not> isDirectory s (path_join outputPath (path_basename photoPath))"
  shows "fst (mergeFiles photoPath videoPath outputPath s) =
            Ok (path_join outputPath (path_basename photoPath)) \<and>
         node_at (snd (mergeFiles photoPath videoPath outputPath s))
            (path_join outputPath (path_basename photoPath)) = Some (File (p @ v)) \<and>
         fst (statSync_size (path_join outputPath (path_basename photoPath))
               (snd (mergeFiles photoPath videoPath outputPath s))) =
            Ok (length p + length v)"
proof -
  let ?out = "path_join outputPath (path_basename photoPath)"
  have d: "isDirectory s (path_dirname ?out)"
    using dir_of_join[OF out(1) valid_photo_basename[OF valid] _ out(2)] basename_no_sep
    by blast
  have nd: "node_at s ?out \<noteq> Some Dir" "?out \<noteq> ''.''" "?out \<noteq> ''/''"
    using nodir by (auto simp: isDirectory_def node_at_def)
  define s' where "s' = s\<lparr>console := console s @
        [(Log, ''Merging '' @ photoPath @ '' and '' @ videoPath @ ''.'')],
      io_log := io_log s @ [ReadFile photoPath, ReadFile videoPath, WriteFile ?out],
      fs := AList.update ?out (File (p @ v)) (fs s),
      processedFiles := processedFiles s @ [photoPath, videoPath]\<rparr>"
  have run: "mergeFiles photoPath videoPath outputPath s = (Ok ?out, s')"
    using d nd photo video
    by (auto simp: mergeFiles_def mkdirSync_recursive_def readFileSync_def writeFileSync_def
        io_defs Let_def isDirectory_def s'_def split: option.splits node.splits)
  have at: "node_at s' ?out = Some (File (p @ v))"
    using nd by (simp add: s'_def node_at_def update_conv')
  then have "statSync_size ?out s' = (Ok (length p + length v), s')"
    by (simp add: statSync_size_def ret_def)
  with run at show ?thesis by simp
qed

theorem mergeFiles_concat_witness:
  "fst (mergeFiles ''photos/IMG_0001.jpg'' ''photos/IMG_0001.mov'' ''output'' demo) =
     Ok ''output/IMG_0001.jpg'' \<and>
   node_at (snd (mergeFiles ''photos/IMG_0001.jpg'' ''photos/IMG_0001.mov'' ''output'' demo))
     ''output/IMG_0001.jpg'' = Some (File [1, 2, 3, 4, 5]) \<and>
   fst (statSync_size ''output/IMG_0001.jpg''
     (snd (mergeFiles ''photos/IMG_0001.jpg'' ''photos/IMG_0001.mov'' ''output'' demo))) = Ok 5"
proof -
  have h1: "fst (validateMedia ''photos/IMG_0001.jpg'' ''photos/IMG_0001.mov'' demo) = Ok True"
    by code_simp
  have h2: "node_at demo ''photos/IMG_0001.jpg'' = Some (File [1, 2, 3])" by code_simp
  have h3: "node_at demo ''photos/IMG_0001.mov'' = Some (File [4, 5])" by code_simp
  have h4: "normal_dir ''output''" by code_simp
  have h5: "isDirectory demo ''output''" by code_simp
  have j: "path_join ''output'' (path_basename ''photos/IMG_0001.jpg'') = ''output/IMG_0001.jpg''"
    by code_simp
  have h6: "\<not> isDirectory demo (path_join ''output'' (path_basename ''photos/IMG_0001.jpg''))"
    by code_simp
  from mergeFiles_concat[OF h1 h2 h3 h4 h5 h6] show ?thesis by (simp add: j)
qed

section \<open>Relations kept along a computation\<close>

lemma preservesI: "(\<And>s. R s (snd (m s))) \<Longrightarrow> preserves R m"
  by (simp add: preserves_def)

lemma preservesD: "preserves R m \<Longrightarrow> R s (snd (m s))"
  by (simp add: preserves_def)

lemma preserves_ret: "reflp R \<Longrightarrow> preserves R (ret x)"
  by (simp add: preserves_def ret_def reflpD)

lemma preserves_throw: "reflp R \<Longrightarrow> preserves R (throw e)"
  by (simp add: preserves_def throw_def reflpD)

lemma preserves_exit: "reflp R \<Longrightarrow> preserves R (process_exit n)"
  by (simp add: preserves_def process_exit_def reflpD)

lemma preserves_bind:
  assumes "transp R" "preserves R m" "\<And>x. preserves R (f x)"
  shows "preserves R (io_bind m f)"
proof (rule preservesI)
  fix s
  obtain r s1 where m: "m s = (r, s1)" by (cases "m s")
  have a: "R s s1" using preservesD[OF assms(2), of s] m by simp
  show "R s (snd (io_bind m f s))"
  proof (cases r)
    case (Ok x)
    have "R s1 (snd (f x s1))" using preservesD[OF assms(3)] .
    with a have "R s (snd (f x s1))" using assms(1) by (blast dest: transpD)
    then show ?thesis using m Ok by (simp add: io_bind_def)
  qed (use m a in \<open>simp_all add: io_bind_def\<close>)
qed

lemma preserves_then:
  assumes "transp R" "preserves R m" "preserves R k"
  shows "preserves R (io_then m k)"
  unfolding io_then_def using assms by (intro preserves_bind) auto

lemma preserves_try:
  assumes "transp R" "preserves R m" "\<And>e. preserves R (h e)"
  shows "preserves R (try_catch m h)"
proof (rule preservesI)
  fix s
  obtain r s1 where m: "m s = (r, s1)" by (cases "m s")
  have a: "R s s1" using preservesD[OF assms(2), of s] m by simp
  show "R s (snd (try_catch m h s))"
  proof (cases r)
    case (Threw e)
    have "R s1 (snd (h e s1))" using preservesD[OF assms(3)] .
    with a have "R s (snd (h e s1))" using assms(1) by (blast dest: transpD)
    then show ?thesis using m Threw by (simp add: try_catch_def)
  qed (use m a in \<open>simp_all add: try_catch_def\<close>)
qed

lemma preserves_when:
  assumes "reflp R" "b \<Longrightarrow> preserves R m"
  shows "preserves R (io_when b m)"
  using assms by (simp add: io_when_def preserves_ret)

lemma preserves_state_dep:
  assumes "\<And>s. preserves R (m s)"
  shows "preserves R (\<lambda>s. m s s)"
  using assms by (simp add: preserves_def)

lemma frameD:
  assumes "frame X s s'" "q \<notin> X"
  shows "node_at s q = Some n \<Longrightarrow> node_at s' q = Some n"
    and "node_at s q = None \<Longrightarrow> node_at s' q = None \<or> node_at s' q = Some Dir"
proof -
  have c: "case node_at s q of
             Some n \<Rightarrow> node_at s' q = Some n
           | None \<Rightarrow> node_at s' q = None \<or> node_at s' q = Some Dir"
    using assms by (simp add: frame_def)
  show "node_at s q = Some n \<Longrightarrow> node_at s' q = Some n" using c by simp
  show "node_at s q = None \<Longrightarrow> node_at s' q = None \<or> node_at s' q = Some Dir"
    using c by simp
qed

lemma frame_refl: "reflp (frame X)"
  by (auto simp: reflp_def frame_def split: option.splits)

lemma frame_trans: "transp (frame X)"
proof (rule transpI)
  fix s t u
  assume a: "frame X s t" "frame X t u"
  show "frame X s u"
    unfolding frame_def
  proof (intro allI impI)
    fix q assume "q \<notin> X"
    with a have "case node_at s q of Some n \<Rightarrow> node_at t q = Some n
                   | None \<Rightarrow> node_at t q = None \<or> node_at t q = Some Dir"
       "case node_at t q of Some n \<Rightarrow> node_at u q = Some n
                   | None \<Rightarrow> node_at u q = None \<or> node_at u q = Some Dir"
      by (auto simp: frame_def)
    then show "case node_at s q of Some n \<Rightarrow> node_at u q = Some n
                   | None \<Rightarrow> node_at u q = None \<or> node_at u q = Some Dir"
      by (auto split: option.splits)
  qed
qed

lemma frame_same_fs: "fs s' = fs s \<Longrightarrow> frame X s s'"
  by (simp add: frame_def node_at_def split: option.splits)

lemma frame_say: "preserves (frame X) (say l msg)"
  by (simp add: preserves_def say_def frame_same_fs)

lemma frame_record_io: "preserves (frame X) (record_io e)"
  by (simp add: preserves_def record_io_def frame_same_fs)

lemma frame_push_processed: "preserves (frame X) (push_processed ps)"
  by (simp add: preserves_def push_processed_def frame_same_fs)

lemma frame_readFileSync: "preserves (frame X) (readFileSync p)"
  by (auto simp: preserves_def readFileSync_def io_defs frame_same_fs
      split: option.splits node.splits)

lemma frame_mkdir_one: "preserves (frame X) (mkdir_one p)"
  by (auto simp: preserves_def mkdir_one_def io_defs frame_def node_at_def update_conv'
      split: option.splits node.splits)

lemma frame_mkdir_all: "preserves (frame X) (mkdir_all ps)"
  by (induction ps)
     (auto intro!: preserves_then preserves_ret frame_mkdir_one frame_refl frame_trans)

lemma frame_mkdirSync_recursive: "preserves (frame X) (mkdirSync_recursive p)"
  using frame_mkdir_all[of X "dir_prefixes p"] frame_refl[of X]
  by (auto simp: preserves_def mkdirSync_recursive_def ret_def reflpD)

lemma frame_writeFileSync: "p \<in> X \<Longrightarrow> preserves (frame X) (writeFileSync p b)"
  by (auto simp: preserves_def writeFileSync_def io_defs frame_def node_at_def update_conv'
      split: option.splits node.splits)

lemma frame_mergeFiles:
  "preserves (frame {path_join outputPath (path_basename photoPath)})
     (mergeFiles photoPath videoPath outputPath)"
  unfolding mergeFiles_def Let_def
  by (intro preserves_then preserves_bind preserves_ret frame_refl frame_trans frame_say
      frame_mkdirSync_recursive frame_readFileSync frame_writeFileSync frame_push_processed)
     simp

section \<open>What the muxer leaves alone\<close>

text \<open>
  Claim C9. The mux step must leave the two source files as they are and change only
  the output file. The code breaks this when the output directory is the directory of
  the still: the derived output path is then the path of the still, \<open>mergeFiles\<close>
  writes the concatenation over it, \<open>createMotionPhoto\<close> reads the size of the
  overwritten still and records the offset 0, and \<open>main\<close> ends normally with the
  still replaced.
\<close>

theorem mergeFiles_overwrites_still:
  "node_at demo ''photos/IMG_0001.jpg'' = Some (File [1, 2, 3]) \<and>
   fst (mergeFiles ''photos/IMG_0001.jpg'' ''photos/IMG_0001.mov'' ''photos'' demo) =
     Ok ''photos/IMG_0001.jpg'' \<and>
   node_at (snd (mergeFiles ''photos/IMG_0001.jpg'' ''photos/IMG_0001.mov'' ''photos'' demo))
     ''photos/IMG_0001.jpg'' = Some (File [1, 2, 3, 4, 5]) \<and>
   fst (createMotionPhoto demo_services ''photos/IMG_0001.jpg'' ''photos/IMG_0001.mov''
          ''photos'' demo) = Ok () \<and>
   xmp (snd (createMotionPhoto demo_services ''photos/IMG_0001.jpg'' ''photos/IMG_0001.mov''
          ''photos'' demo)) ''photos/IMG_0001.jpg'' ''XMP:MicroVideoOffset'' = Some 0 \<and>
   fst (main demo_services same_directory_answers demo) = Exited 0 \<and>
   node_at (snd (main demo_services same_directory_answers demo)) ''photos/IMG_0001.jpg'' =
     Some (File [1, 2, 3, 4, 5, 0])"
  by code_simp

text \<open>
  Away from that case the sources are kept. Whatever \<open>mergeFiles\<close> does, every path
  other than the derived output path keeps the node it had, and a path that did not
  exist is afterwards still absent or a directory that \<open>mkdirSync\<close> created.
\<close>

lemma mergeFiles_frame:
  assumes "q \<noteq> path_join outputPath (path_basename photoPath)"
  shows "(existsSync s q \<longrightarrow>
            node_at (snd (mergeFiles photoPath videoPath outputPath s)) q = node_at s q) \<and>
         (\<not> existsSync s q \<longrightarrow>
            node_at (snd (mergeFiles photoPath videoPath outputPath s)) q = None \<or>
            node_at (snd (mergeFiles photoPath videoPath outputPath s)) q = Some Dir)"
proof -
  let ?X = "{path_join outputPath (path_basename photoPath)}"
  have f: "frame ?X s (snd (mergeFiles photoPath videoPath outputPath s))"
    by (rule preservesD[OF frame_mergeFiles])
  have q: "q \<notin> ?X" using assms by simp
  show ?thesis using frameD[OF f q] by (auto simp: existsSync_def)
qed

lemma mergeFiles_frame_example:
  "node_at (snd (mergeFiles ''photos/IMG_0001.jpg'' ''photos/IMG_0001.mov'' ''output'' demo))
      ''photos/IMG_0001.jpg'' = Some (File [1, 2, 3]) \<and>
   node_at (snd (mergeFiles ''photos/IMG_0001.jpg'' ''photos/IMG_0001.mov'' ''output'' demo))
      ''photos/IMG_0001.mov'' = Some (File [4, 5])"
proof -
  have j: "path_join ''output'' (path_basename ''photos/IMG_0001.jpg'') = ''output/IMG_0001.jpg''"
    by code_simp
  have e1: "existsSync demo ''photos/IMG_0001.jpg''" by code_simp
  have e2: "existsSync demo ''photos/IMG_0001.mov''" by code_simp
  have n1: "node_at demo ''photos/IMG_0001.jpg'' = Some (File [1, 2, 3])" by code_simp
  have n2: "node_at demo ''photos/IMG_0001.mov'' = Some (File [4, 5])" by code_simp
  have "''photos/IMG_0001.jpg'' \<noteq> path_join ''output'' (path_basename ''photos/IMG_0001.jpg'')"
    by (simp add: j)
  from mergeFiles_frame[OF this, where s = demo and videoPath = "''photos/IMG_0001.mov''"]
  have a: "node_at (snd (mergeFiles ''photos/IMG_0001.jpg'' ''photos/IMG_0001.mov'' ''output'' demo))
      ''photos/IMG_0001.jpg'' = Some (File [1, 2, 3])" using e1 n1 by simp
  have "''photos/IMG_0001.mov'' \<noteq> path_join ''output'' (path_basename ''photos/IMG_0001.jpg'')"
    by (simp add: j)
  from mergeFiles_frame[OF this, where s = demo and videoPath = "''photos/IMG_0001.mov''"]
  have b: "node_at (snd (mergeFiles ''photos/IMG_0001.jpg'' ''photos/IMG_0001.mov'' ''output'' demo))
      ''photos/IMG_0001.mov'' = Some (File [4, 5])" using e2 n2 by simp
  from a b show ?thesis by simp
qed

text \<open>
  For a pair that \<open>validateMedia\<close> accepts the derived output path ends in \<^verbatim>\<open>.jpg\<close> or
  \<^verbatim>\<open>.jpeg\<close> and the video in \<^verbatim>\<open>.mov\<close> or \<^verbatim>\<open>.mp4\<close>, so the video is never the output
  path and is always kept; the still is kept whenever it is not the output path.
\<close>

lemma endsWith_nested:
  assumes "endsWith x a" "endsWith x b" "length b \<le> length a"
  shows "endsWith a b"
proof -
  from assms have a: "drop (length x - length a) x = a" "length a \<le> length x"
    and b: "drop (length x - length b) x = b" by (auto simp: endsWith_def)
  have "drop (length a - length b) (drop (length x - length a) x) = drop (length x - length b) x"
    using a(2) assms(3) by (simp add: drop_drop)
  then have "drop (length a - length b) a = b" using a(1) b by simp
  then show ?thesis using assms(3) by (simp add: endsWith_def)
qed

lemma endsWith_append: "endsWith y t \<Longrightarrow> endsWith (x @ y) t"
  by (auto simp: endsWith_def)

lemma endsWith_basename:
  assumes e: "endsWith (toLowerCase p) t" and t: "t \<noteq> []" "\<forall>c \<in> set t. \<not> is_sep c"
  shows "endsWith (toLowerCase (path_basename p)) t"
proof -
  let ?n = "length p - length t"
  define u where "u = drop ?n p"
  define pre where "pre = take ?n p"
  have len: "length t \<le> length p" using e by (simp add: endsWith_def toLowerCase_def)
  have p: "p = pre @ u" by (simp add: pre_def u_def)
  have lu: "toLowerCase u = t"
    using e by (simp add: endsWith_def toLowerCase_def u_def drop_map)
  have nosep: "\<forall>c \<in> set u. \<not> is_sep c"
  proof
    fix c assume "c \<in> set u"
    then have "lower_char c \<in> set t" using lu by (auto simp: toLowerCase_def)
    then show "\<not> is_sep c" using t(2) lower_char_sep by blast
  qed
  have une: "u \<noteq> []" using lu t(1) by (auto simp: toLowerCase_def)
  then obtain a r where ru: "rev u = a # r" by (cases "rev u") auto
  then have "\<not> is_sep a" using nosep by (metis list.set_intros(1) set_rev)
  moreover have "rev r @ [a] = u" using ru by (metis rev.simps(2) rev_rev_ident)
  ultimately have d: "dropWhileEnd is_sep (pre @ u) = pre @ u"
    by (simp add: dropWhileEnd_def ru)
  have "takeWhile (\<lambda>c. \<not> is_sep c) (rev u @ rev pre) =
        rev u @ takeWhile (\<lambda>c. \<not> is_sep c) (rev pre)"
    by (rule takeWhile_append2) (use nosep in auto)
  then have "path_basename (pre @ u) = rev (takeWhile (\<lambda>c. \<not> is_sep c) (rev pre)) @ u"
    by (simp add: path_basename_def d)
  then have "path_basename p = rev (takeWhile (\<lambda>c. \<not> is_sep c) (rev pre)) @ u"
    using p by simp
  then have "toLowerCase (path_basename p) =
      toLowerCase (rev (takeWhile (\<lambda>c. \<not> is_sep c) (rev pre))) @ toLowerCase u"
    by (simp add: toLowerCase_def)
  then show ?thesis using lu by (simp add: endsWith_append endsWith_def)
qed

lemma path_join_suffix: "f \<noteq> [] \<Longrightarrow> \<exists>x. path_join d f = x @ f"
  by (auto simp: path_join_def)

lemma valid_video_not_output:
  assumes valid: "fst (validateMedia photoPath videoPath s) = Ok True"
  shows "videoPath \<noteq> path_join outputPath (path_basename photoPath)"
proof
  let ?b = "path_basename photoPath"
  assume eq: "videoPath = path_join outputPath ?b"
  obtain x where j: "path_join outputPath ?b = x @ ?b"
    using path_join_suffix[OF valid_photo_basename[OF valid]] by blast
  have photo: "endsWith (toLowerCase ?b) ''.jpg'' \<or> endsWith (toLowerCase ?b) ''.jpeg''"
    using validateMedia_True(4)[OF valid]
      endsWith_basename[of photoPath "''.jpg''"] endsWith_basename[of photoPath "''.jpeg''"]
    by (auto simp: is_sep_def)
  have "toLowerCase videoPath = toLowerCase x @ toLowerCase ?b"
    by (simp add: eq j toLowerCase_def)
  then have out: "endsWith (toLowerCase videoPath) ''.jpg'' \<or>
                  endsWith (toLowerCase videoPath) ''.jpeg''"
    using photo endsWith_append by auto
  have video: "endsWith (toLowerCase videoPath) ''.mov'' \<or>
               endsWith (toLowerCase videoPath) ''.mp4''"
    by (rule validateMedia_True(5)[OF valid])
  have no: "\<not> endsWith ''.jpg'' ''.mov''" "\<not> endsWith ''.jpg'' ''.mp4''"
    "\<not> endsWith ''.jpeg'' ''.mov''" "\<not> endsWith ''.jpeg'' ''.mp4''"
    by (simp_all add: endsWith_def)
  from out video no show False
    using endsWith_nested[of "toLowerCase videoPath" "''.jpg''" "''.mov''"]
      endsWith_nested[of "toLowerCase videoPath" "''.jpg''" "''.mp4''"]
      endsWith_nested[of "toLowerCase videoPath" "''.jpeg''" "''.mov''"]
      endsWith_nested[of "toLowerCase videoPath" "''.jpeg''" "''.mp4''"]
    by auto
qed

lemma mergeFiles_sources:
  assumes valid: "fst (validateMedia photoPath videoPath s) = Ok True"
  shows "node_at (snd (mergeFiles photoPath videoPath outputPath s)) videoPath =
           node_at s videoPath"
    and "photoPath \<noteq> path_join outputPath (path_basename photoPath) \<Longrightarrow>
         node_at (snd (mergeFiles photoPath videoPath outputPath s)) photoPath =
           node_at s photoPath"
proof -
  let ?X = "{path_join outputPath (path_basename photoPath)}"
  have f: "frame ?X s (snd (mergeFiles photoPath videoPath outputPath s))"
    by (rule preservesD[OF frame_mergeFiles])
  have v: "videoPath \<notin> ?X" using valid_video_not_output[OF valid] by simp
  obtain nv where "node_at s videoPath = Some nv"
    using validateMedia_True(3)[OF valid] by (auto simp: existsSync_def)
  then show "node_at (snd (mergeFiles photoPath videoPath outputPath s)) videoPath =
           node_at s videoPath"
    using frameD(1)[OF f v] by simp
  assume "photoPath \<noteq> path_join outputPath (path_basename photoPath)"
  then have p: "photoPath \<notin> ?X" by simp
  obtain np where "node_at s photoPath = Some np"
    using validateMedia_True(2)[OF valid] by (auto simp: existsSync_def)
  then show "node_at (snd (mergeFiles photoPath videoPath outputPath s)) photoPath =
           node_at s photoPath"
    using frameD(1)[OF f p] by simp
qed

section \<open>Facts about the muxer and the annotator\<close>

lemma mergeFiles_run:
  assumes valid: "fst (validateMedia photoPath videoPath s) = Ok True"
    and photo: "node_at s photoPath = Some (File p)"
    and video: "node_at s videoPath = Some (File v)"
    and out: "normal_dir outputPath" "isDirectory s outputPath"
    and nodir: "\<not> isDirectory s (path_join outputPath (path_basename photoPath))"
  shows "mergeFiles photoPath videoPath outputPath s =
     (Ok (path_join outputPath (path_basename photoPath)),
      s\<lparr>console := console s @
           [(Log, ''Merging '' @ photoPath @ '' and '' @ videoPath @ ''.'')],
        io_log := io_log s @ [ReadFile photoPath, ReadFile videoPath,
           WriteFile (path_join outputPath (path_basename photoPath))],
        fs := AList.update (path_join outputPath (path_basename photoPath))
                (File (p @ v)) (fs s),
        processedFiles := processedFiles s @ [photoPath, videoPath]\<rparr>)"
proof -
  let ?out = "path_join outputPath (path_basename photoPath)"
  have d: "isDirectory s (path_dirname ?out)"
    using dir_of_join[OF out(1) valid_photo_basename[OF valid] _ out(2)] basename_no_sep
    by blast
  have nd: "node_at s ?out \<noteq> Some Dir" "?out \<noteq> ''.''" "?out \<noteq> ''/''"
    using nodir by (auto simp: isDirectory_def node_at_def)
  show ?thesis
    using d nd photo video
    by (auto simp: mergeFiles_def mkdirSync_recursive_def readFileSync_def writeFileSync_def
        io_defs Let_def isDirectory_def split: option.splits node.splits)
qed

lemma exiftool_write_ok:
  assumes "node_at s p = Some (File b)" "exif_embed svc b tags = Some b'"
  shows "fst (exiftool_write svc p tags s) = Ok ()"
    and "xmp (snd (exiftool_write svc p tags s)) = (xmp s)(p := xmp s p ++ map_of tags)"
    and "console (snd (exiftool_write svc p tags s)) = console s"
    and "node_at (snd (exiftool_write svc p tags s)) (p @ ''_original'') =
           (if exif_backup svc \<and> \<not> existsSync s (p @ ''_original'') then Some (File b)
            else node_at s (p @ ''_original''))"
  using assms
  by (auto simp: exiftool_write_def io_defs existsSync_def node_at_def update_conv')


lemma unlink_try_ok:
  "fst (try_catch (unlinkSync q) (\<lambda>error. say Warn (msg error)) s) = Ok ()"
  by (auto simp: unlinkSync_def io_defs split: option.splits node.splits)

lemma unlink_try_xmp:
  "xmp (snd (try_catch (unlinkSync q) (\<lambda>error. say Warn (msg error)) s)) = xmp s"
  by (auto simp: unlinkSync_def io_defs split: option.splits node.splits)

lemma addXmpMetadata_ok:
  assumes "node_at s m = Some (File b)" "exif_embed svc b (motion_tags offset) = Some b'"
  shows "fst (addXmpMetadata svc m offset s) = Ok ()"
    and "xmp (snd (addXmpMetadata svc m offset s)) =
           (xmp s)(m := xmp s m ++ map_of (motion_tags offset))"
proof -
  obtain s1 where w: "exiftool_write svc m (motion_tags offset) s = (Ok (), s1)"
    using exiftool_write_ok(1)[OF assms]
    by (cases "exiftool_write svc m (motion_tags offset) s") auto
  have x: "xmp s1 = (xmp s)(m := xmp s m ++ map_of (motion_tags offset))"
    using exiftool_write_ok(2)[OF assms] w by simp
  show "fst (addXmpMetadata svc m offset s) = Ok ()"
    using w unlink_try_ok by (simp add: addXmpMetadata_def io_then_def io_bind_def)
  show "xmp (snd (addXmpMetadata svc m offset s)) =
           (xmp s)(m := xmp s m ++ map_of (motion_tags offset))"
    using w x unlink_try_xmp by (simp add: addXmpMetadata_def io_then_def io_bind_def)
qed


section \<open>The offset is the difference of two sizes read after the merge\<close>

text \<open>
  Claim C2. For a valid pair of regular files, an existing output directory and a
  metadata service that accepts the merged file, \<open>createMotionPhoto\<close> succeeds, and the
  value it writes under \<^verbatim>\<open>XMP:MicroVideoOffset\<close> of the merged file is the size that
  \<open>statSync\<close> reports for the merged file minus the size it reports for the still, both
  read in the state that \<open>mergeFiles\<close> leaves. When the merged path is not the path of
  the still, that is the length of the video.
\<close>

theorem createMotionPhoto_offset:
  assumes valid: "fst (validateMedia photoPath videoPath s) = Ok True"
    and photo: "node_at s photoPath = Some (File p)"
    and video: "node_at s videoPath = Some (File v)"
    and out: "normal_dir outputPath" "isDirectory s outputPath"
    and nodir: "\<not> isDirectory s (path_join outputPath (path_basename photoPath))"
    and embed: "\<forall>tags. exif_embed svc (p @ v) tags \<noteq> None"
  shows "let merged = path_join outputPath (path_basename photoPath);
             s1 = snd (mergeFiles photoPath videoPath outputPath s);
             s2 = snd (createMotionPhoto svc photoPath videoPath outputPath s)
         in fst (createMotionPhoto svc photoPath videoPath outputPath s) = Ok () \<and>
            (\<exists>total still.
               statSync_size merged s1 = (Ok total, s1) \<and>
               statSync_size photoPath s1 = (Ok still, s1) \<and>
               xmp s2 merged ''XMP:MicroVideoOffset'' = Some (int total - int still)) \<and>
            (merged \<noteq> photoPath \<longrightarrow>
               xmp s2 merged ''XMP:MicroVideoOffset'' = Some (int (length v)))"
proof -
  let ?m = "path_join outputPath (path_basename photoPath)"
  let ?s1 = "snd (mergeFiles photoPath videoPath outputPath s)"
  note run = mergeFiles_run[OF valid photo video out nodir]
  have nd: "?m \<noteq> ''.''" "?m \<noteq> ''/''"
    using nodir by (auto simp: isDirectory_def node_at_def)
  have m1: "node_at ?s1 ?m = Some (File (p @ v))"
    using nd by (simp add: run node_at_def update_conv')
  have p1: "node_at ?s1 photoPath = Some (File (if photoPath = ?m then p @ v else p))"
    using photo nd by (auto simp: run node_at_def update_conv')
  let ?total = "length (p @ v)"
  let ?still = "length (if photoPath = ?m then p @ v else p)"
  let ?off = "int ?total - int ?still"
  have st: "statSync_size ?m ?s1 = (Ok ?total, ?s1)"
    "statSync_size photoPath ?s1 = (Ok ?still, ?s1)"
    using m1 p1 by (simp_all add: statSync_size_def ret_def)
  obtain b' where e: "exif_embed svc (p @ v) (motion_tags ?off) = Some b'"
    using embed by (meson option.exhaust)
  have cm: "createMotionPhoto svc photoPath videoPath outputPath s =
              addXmpMetadata svc ?m ?off ?s1"
    using validateMedia_True(1)[OF valid] st
    by (simp add: createMotionPhoto_def io_bind_def run Let_def)
  have ok: "fst (createMotionPhoto svc photoPath videoPath outputPath s) = Ok ()"
    using addXmpMetadata_ok(1)[OF m1 e] cm by simp
  have x: "xmp (snd (createMotionPhoto svc photoPath videoPath outputPath s)) ?m
             ''XMP:MicroVideoOffset'' = Some ?off"
    using addXmpMetadata_ok(2)[OF m1 e] cm by (simp add: motion_tags_def)
  show ?thesis
    unfolding Let_def using ok x st by auto
qed

theorem createMotionPhoto_offset_witness:
  "fst (createMotionPhoto demo_services ''photos/IMG_0001.jpg'' ''photos/IMG_0001.mov''
          ''output'' demo) = Ok () \<and>
   xmp (snd (createMotionPhoto demo_services ''photos/IMG_0001.jpg'' ''photos/IMG_0001.mov''
          ''output'' demo)) ''output/IMG_0001.jpg'' ''XMP:MicroVideoOffset'' = Some 2"
proof -
  have h1: "fst (validateMedia ''photos/IMG_0001.jpg'' ''photos/IMG_0001.mov'' demo) = Ok True"
    by code_simp
  have h2: "node_at demo ''photos/IMG_0001.jpg'' = Some (File [1, 2, 3])" by code_simp
  have h3: "node_at demo ''photos/IMG_0001.mov'' = Some (File [4, 5])" by code_simp
  have h4: "normal_dir ''output''" by code_simp
  have h5: "isDirectory demo ''output''" by code_simp
  have j: "path_join ''output'' (path_basename ''photos/IMG_0001.jpg'') = ''output/IMG_0001.jpg''"
    by code_simp
  have h6: "\<not> isDirectory demo (path_join ''output'' (path_basename ''photos/IMG_0001.jpg''))"
    by code_simp
  have h7: "\<forall>tags. exif_embed demo_services ([1, 2, 3] @ [4, 5]) tags \<noteq> None"
    by (simp add: demo_services_def)
  from createMotionPhoto_offset[OF h1 h2 h3 h4 h5 h6 h7] show ?thesis
    by (simp add: j Let_def)
qed

section \<open>Validation comes first\<close>

lemma endsWith_same_length:
  "endsWith x a \<Longrightarrow> endsWith x b \<Longrightarrow> length a = length b \<Longrightarrow> a = b"
  by (auto simp: endsWith_def)

text \<open>
  Claim C3. \<open>validateMedia\<close> accepts a pair exactly when both paths are non-empty and
  exist, the still ends in \<^verbatim>\<open>.jpg\<close> or \<^verbatim>\<open>.jpeg\<close> and the video in \<^verbatim>\<open>.mov\<close> or \<^verbatim>\<open>.mp4\<close>,
  the case of the letters ignored; it reads and writes nothing. When it rejects the pair,
  \<open>createMotionPhoto\<close> returns with the file system, the record of reads and writes,
  the metadata and the list of processed files as they were. A video path that ends in
  \<^verbatim>\<open>.txt\<close> is rejected.
\<close>

theorem createMotionPhoto_validates_first:
  "let accepted =
         (photoPath \<noteq> [] \<and> existsSync s photoPath \<and>
          videoPath \<noteq> [] \<and> existsSync s videoPath \<and>
          (endsWith (toLowerCase photoPath) ''.jpg'' \<or>
           endsWith (toLowerCase photoPath) ''.jpeg'') \<and>
          (endsWith (toLowerCase videoPath) ''.mov'' \<or>
           endsWith (toLowerCase videoPath) ''.mp4''));
       s' = snd (createMotionPhoto svc photoPath videoPath outputPath s)
   in fst (validateMedia photoPath videoPath s) = Ok accepted \<and>
      io_log (snd (validateMedia photoPath videoPath s)) = io_log s \<and>
      fs (snd (validateMedia photoPath videoPath s)) = fs s \<and>
      (\<not> accepted \<longrightarrow>
         fst (createMotionPhoto svc photoPath videoPath outputPath s) = Ok () \<and>
         fs s' = fs s \<and> io_log s' = io_log s \<and> xmp s' = xmp s \<and>
         processedFiles s' = processedFiles s) \<and>
      (endsWith (toLowerCase videoPath) ''.txt'' \<longrightarrow> \<not> accepted)"
proof -
  have not_video: "endsWith (toLowerCase videoPath) ''.txt'' \<Longrightarrow>
        \<not> endsWith (toLowerCase videoPath) ''.mov'' \<and>
        \<not> endsWith (toLowerCase videoPath) ''.mp4''"
    using endsWith_same_length[of "toLowerCase videoPath" "''.txt''" "''.mov''"]
          endsWith_same_length[of "toLowerCase videoPath" "''.txt''" "''.mp4''"]
    by auto
  show ?thesis
    unfolding Let_def
    using not_video
    by (auto simp: createMotionPhoto_def validateMedia_def validateFile_def io_defs)
qed

theorem createMotionPhoto_validates_first_witness:
  "fst (validateMedia ''photos/IMG_0001.jpg'' ''photos/notes.txt'' demo) = Ok False \<and>
   fst (createMotionPhoto demo_services ''photos/IMG_0001.jpg'' ''photos/notes.txt''
          ''output'' demo) = Ok () \<and>
   fs (snd (createMotionPhoto demo_services ''photos/IMG_0001.jpg'' ''photos/notes.txt''
          ''output'' demo)) = fs demo \<and>
   io_log (snd (createMotionPhoto demo_services ''photos/IMG_0001.jpg'' ''photos/notes.txt''
          ''output'' demo)) = io_log demo"
proof -
  have e: "endsWith (toLowerCase ''photos/notes.txt'') ''.txt''" by code_simp
  from createMotionPhoto_validates_first[of "''photos/IMG_0001.jpg''" demo
      "''photos/notes.txt''" demo_services "''output''"] e
  show ?thesis by (simp add: Let_def)
qed

section \<open>The annotator: sidecar and idempotence\<close>




lemma node_at_delete:
  "q \<noteq> ''.'' \<Longrightarrow> q \<noteq> ''/'' \<Longrightarrow> node_at (s\<lparr>fs := AList.delete q f\<rparr>) q = None"
  by (simp add: node_at_def delete_conv')

lemma sidecar_not_special: "m @ ''_original'' \<noteq> ''.''" "m @ ''_original'' \<noteq> ''/''"
  by (auto simp: append_eq_Cons_conv)

text \<open>
  Claim C6. When the metadata write succeeds, \<open>addXmpMetadata\<close> returns normally. A
  sidecar \<^verbatim>\<open>_original\<close> that the service created, or any regular file at that path, is
  deleted. When there is no regular file to delete at the sidecar path (absent, or a
  directory), the failure of \<open>unlink\<close> is caught: the only effect is one warning on the
  console and the result is still normal.
\<close>

theorem addXmpMetadata_sidecar:
  assumes "node_at s mergedFile = Some (File b)"
    and "exif_embed svc b (motion_tags offset) = Some b'"
  shows "let sidecar = mergedFile @ ''_original'';
             sw = snd (exiftool_write svc mergedFile (motion_tags offset) s);
             s' = snd (addXmpMetadata svc mergedFile offset s)
         in fst (addXmpMetadata svc mergedFile offset s) = Ok () \<and>
            (exif_backup svc \<and> \<not> existsSync s sidecar \<longrightarrow>
               node_at sw sidecar = Some (File b)) \<and>
            ((\<exists>c. node_at sw sidecar = Some (File c)) \<longrightarrow>
               node_at s' sidecar = None \<and> console s' = console s) \<and>
            ((\<forall>c. node_at sw sidecar \<noteq> Some (File c)) \<longrightarrow>
               fs s' = fs sw \<and>
               (\<exists>e. console s' = console s @ [(Warn, ''Failed to delete '' @ error_message e)]))"
proof -
  let ?side = "mergedFile @ ''_original''"
  let ?sw = "snd (exiftool_write svc mergedFile (motion_tags offset) s)"
  let ?s' = "snd (addXmpMetadata svc mergedFile offset s)"
  obtain sw where w: "exiftool_write svc mergedFile (motion_tags offset) s = (Ok (), sw)"
    using exiftool_write_ok(1)[OF assms]
    by (cases "exiftool_write svc mergedFile (motion_tags offset) s") auto
  then have sw: "?sw = sw" by simp
  have "addXmpMetadata svc mergedFile offset s =
      try_catch (unlinkSync ?side) (\<lambda>error. say Warn (''Failed to delete '' @ error_message error)) sw"
    by (simp add: addXmpMetadata_def io_then_def io_bind_def w)
  then have run: "addXmpMetadata svc mergedFile offset s =
      try_catch (unlinkSync ?side) (\<lambda>error. say Warn (''Failed to delete '' @ error_message error)) ?sw"
    by (simp only: sw)
  have cw: "console ?sw = console s" using exiftool_write_ok(3)[OF assms] .
  have ok: "fst (addXmpMetadata svc mergedFile offset s) = Ok ()"
    by (rule addXmpMetadata_ok(1)[OF assms])
  have made: "exif_backup svc \<and> \<not> existsSync s ?side \<Longrightarrow> node_at ?sw ?side = Some (File b)"
    using exiftool_write_ok(4)[OF assms] by simp
  have del: "node_at ?s' ?side = None \<and> console ?s' = console s"
    if "node_at ?sw ?side = Some (File c)" for c
    using that cw sidecar_not_special[of mergedFile]
    by (simp add: run unlinkSync_def io_defs node_at_delete)
  have keep: "fs ?s' = fs ?sw \<and>
        (\<exists>e. console ?s' = console s @ [(Warn, ''Failed to delete '' @ error_message e)])"
    if "\<forall>c. node_at ?sw ?side \<noteq> Some (File c)"
  proof (cases "node_at ?sw ?side")
    case None
    then show ?thesis using cw
      by (auto simp: run unlinkSync_def io_defs simp del: error_message.simps)
  next
    case (Some n)
    with that have "n = Dir" by (cases n) auto
    with Some show ?thesis using cw
      by (auto simp: run unlinkSync_def io_defs simp del: error_message.simps)
  qed
  show ?thesis unfolding Let_def using ok made del keep by blast
qed

theorem addXmpMetadata_sidecar_witness:
  "fst (addXmpMetadata demo_services ''photos/IMG_0001.jpg'' 2 demo) = Ok () \<and>
   node_at (snd (exiftool_write demo_services ''photos/IMG_0001.jpg'' (motion_tags 2) demo))
     ''photos/IMG_0001.jpg_original'' = Some (File [1, 2, 3]) \<and>
   node_at (snd (addXmpMetadata demo_services ''photos/IMG_0001.jpg'' 2 demo))
     ''photos/IMG_0001.jpg_original'' = None"
proof -
  have h1: "node_at demo ''photos/IMG_0001.jpg'' = Some (File [1, 2, 3])" by code_simp
  have h2: "exif_embed demo_services [1, 2, 3] (motion_tags 2) = Some [1, 2, 3, 0]"
    by (simp add: demo_services_def)
  have h3: "exif_backup demo_services" by (simp add: demo_services_def)
  have h4: "\<not> existsSync demo (''photos/IMG_0001.jpg'' @ ''_original'')" by code_simp
  from addXmpMetadata_sidecar[OF h1 h2] h3 h4 show ?thesis
    by (simp add: Let_def)
qed



section \<open>The pair resolver takes the first candidate of the listing\<close>

lemma matchingVideo_loop_first:
  assumes "\<exists>f \<in> set files. is_candidate base f"
  shows "\<exists>pre file post. files = pre @ file # post \<and> is_candidate base file \<and>
           (\<forall>g \<in> set pre. \<not> is_candidate base g) \<and>
           matchingVideo_loop base videoDir files = Some (path_join videoDir file)"
  using assms
proof (induction files)
  case Nil
  then show ?case by simp
next
  case (Cons f files)
  show ?case
  proof (cases "is_candidate base f")
    case True
    then have "f # files = [] @ f # files \<and> is_candidate base f \<and>
           (\<forall>g \<in> set []. \<not> is_candidate base g) \<and>
           matchingVideo_loop base videoDir (f # files) = Some (path_join videoDir f)"
      by simp
    then show ?thesis by blast
  next
    case False
    with Cons.prems have "\<exists>f \<in> set files. is_candidate base f" by auto
    from Cons.IH[OF this] obtain pre vid post where
      h: "files = pre @ vid # post" "is_candidate base vid"
         "\<forall>g \<in> set pre. \<not> is_candidate base g"
         "matchingVideo_loop base videoDir files = Some (path_join videoDir vid)"
      by blast
    have "f # files = (f # pre) @ vid # post \<and> is_candidate base vid \<and>
           (\<forall>g \<in> set (f # pre). \<not> is_candidate base g) \<and>
           matchingVideo_loop base videoDir (f # files) = Some (path_join videoDir vid)"
      using h False by simp
    then show ?thesis by blast
  qed
qed

lemma readdirSync_ok:
  "isDirectory s d \<Longrightarrow>
     readdirSync d s = (Ok (dir_entries s d), s\<lparr>io_log := io_log s @ [Readdir d]\<rparr>)"
  by (simp add: readdirSync_def isDirectory_def io_defs)

text \<open>
  Claim C4. A candidate for a still is an entry of the directory that starts with the
  stem of the still and ends, letters lower-cased, in \<^verbatim>\<open>.mov\<close> or \<^verbatim>\<open>.mp4\<close>. When the
  listing of the directory holds a candidate, \<open>matchingVideo\<close> returns exactly one
  path: the directory joined with the first candidate of the listing, no entry before
  it being a candidate.
\<close>

theorem matchingVideo_first_match:
  assumes "isDirectory s videoDir"
    and "\<exists>f \<in> set (dir_entries s videoDir). is_candidate (parse_name photoPath) f"
  shows "\<exists>pre file post.
           dir_entries s videoDir = pre @ file # post \<and>
           is_candidate (parse_name photoPath) file \<and>
           (\<forall>g \<in> set pre. \<not> is_candidate (parse_name photoPath) g) \<and>
           fst (matchingVideo photoPath videoDir s) = Ok (Some (path_join videoDir file))"
proof -
  from matchingVideo_loop_first[OF assms(2), of videoDir] obtain pre vid post where
    h: "dir_entries s videoDir = pre @ vid # post" "is_candidate (parse_name photoPath) vid"
       "\<forall>g \<in> set pre. \<not> is_candidate (parse_name photoPath) g"
       "matchingVideo_loop (parse_name photoPath) videoDir (dir_entries s videoDir) =
          Some (path_join videoDir vid)"
    by blast
  have "fst (matchingVideo photoPath videoDir s) = Ok (Some (path_join videoDir vid))"
    using h(4) by (simp add: matchingVideo_def Let_def readdirSync_ok[OF assms(1)] io_bind_def ret_def)
  with h(1-3) show ?thesis by blast
qed

theorem matchingVideo_first_match_witness:
  "dir_entries demo_two_videos ''photos'' =
     [''IMG_0001.jpg'', ''IMG_0001.txt'', ''IMG_0001_edited.MP4'', ''IMG_0001.mov''] \<and>
   fst (matchingVideo ''photos/IMG_0001.jpg'' ''photos'' demo_two_videos) =
     Ok (Some ''photos/IMG_0001_edited.MP4'') \<and>
   (\<exists>pre file post.
      dir_entries demo_two_videos ''photos'' = pre @ file # post \<and>
      is_candidate (parse_name ''photos/IMG_0001.jpg'') file \<and>
      fst (matchingVideo ''photos/IMG_0001.jpg'' ''photos'' demo_two_videos) =
        Ok (Some (path_join ''photos'' file)))"
proof -
  have h1: "isDirectory demo_two_videos ''photos''" by code_simp
  have c: "is_candidate (parse_name ''photos/IMG_0001.jpg'') ''IMG_0001.mov''" by code_simp
  have l: "dir_entries demo_two_videos ''photos'' =
     [''IMG_0001.jpg'', ''IMG_0001.txt'', ''IMG_0001_edited.MP4'', ''IMG_0001.mov'']"
    by code_simp
  have h2: "\<exists>f \<in> set (dir_entries demo_two_videos ''photos'').
              is_candidate (parse_name ''photos/IMG_0001.jpg'') f"
    using c by (simp add: l)
  have r: "fst (matchingVideo ''photos/IMG_0001.jpg'' ''photos'' demo_two_videos) =
     Ok (Some ''photos/IMG_0001_edited.MP4'')" by code_simp
  from matchingVideo_first_match[OF h1 h2] l r show ?thesis by blast
qed

section \<open>Moved files never land on an existing name\<close>

lemma uniquePath_loop_fresh:
  "\<not> existsSync s (uniquePath_loop s destination name ext counter newFilename)"
proof (induction s destination name ext counter newFilename rule: uniquePath_loop.induct)
  case (1 s destination name ext counter newFilename)
  show ?case
    by (subst uniquePath_loop.simps) (use 1 in auto)
qed

lemma uniquePath_loop_shape:
  "uniquePath_loop s d name ext counter newFilename = path_join d newFilename \<or>
   (existsSync s (path_join d newFilename) \<and>
    (\<exists>k \<ge> counter.
       uniquePath_loop s d name ext counter newFilename = path_join d (candidate_name name ext k) \<and>
       (\<forall>i. counter \<le> i \<and> i < k \<longrightarrow> existsSync s (path_join d (candidate_name name ext i)))))"
proof (induction s d name ext counter newFilename rule: uniquePath_loop.induct)
  case (1 s d name ext counter newFilename)
  let ?c = "name @ ''('' @ show_nat counter @ '')'' @ ext"
  have c: "?c = candidate_name name ext counter" by (simp add: candidate_name_def)
  show ?case
  proof (cases "existsSync s (path_join d newFilename)")
    case False
    then show ?thesis by (subst uniquePath_loop.simps) simp
  next
    case True
    have step: "uniquePath_loop s d name ext counter newFilename =
                uniquePath_loop s d name ext (counter + 1) ?c"
      by (subst uniquePath_loop.simps) (simp add: True)
    from 1[OF True] consider
      (a) "uniquePath_loop s d name ext (counter + 1) ?c = path_join d ?c"
    | (b) k where "existsSync s (path_join d ?c)" "counter + 1 \<le> k"
        "uniquePath_loop s d name ext (counter + 1) ?c = path_join d (candidate_name name ext k)"
        "\<forall>i. counter + 1 \<le> i \<and> i < k \<longrightarrow> existsSync s (path_join d (candidate_name name ext i))"
      by blast
    then show ?thesis
    proof cases
      case a
      then have "counter \<le> counter \<and>
         uniquePath_loop s d name ext counter newFilename =
           path_join d (candidate_name name ext counter) \<and>
         (\<forall>i. counter \<le> i \<and> i < counter \<longrightarrow>
              existsSync s (path_join d (candidate_name name ext i)))"
        by (auto simp: step candidate_name_def)
      with True show ?thesis by blast
    next
      case b
      have "\<forall>i. counter \<le> i \<and> i < k \<longrightarrow> existsSync s (path_join d (candidate_name name ext i))"
      proof (intro allI impI)
        fix i assume i: "counter \<le> i \<and> i < k"
        show "existsSync s (path_join d (candidate_name name ext i))"
        proof (cases "i = counter")
          case True
          then show ?thesis using b(1) c by simp
        next
          case False
          with i have "counter + 1 \<le> i \<and> i < k" by simp
          with b(4) show ?thesis by blast
        qed
      qed
      moreover have "counter \<le> k" using b(2) by simp
      ultimately show ?thesis using True b(3) step by auto
    qed
  qed
qed

lemma map_of_rename_key:
  assumes "q \<noteq> a" "q \<noteq> b"
  shows "map_of (map (\<lambda>(k, n). (if k = a then b @ drop (length a) k else k, n)) al) q =
         map_of al q"
  using assms by (induction al) auto

lemma delete_absent: "map_of al b = None \<Longrightarrow> AList.delete b al = al"
  by (induction al) (auto split: if_splits)

lemma renameSync_file_frame:
  assumes src: "node_at s a = Some (File c)"
    and fresh: "\<not> existsSync s b"
    and q: "existsSync s q" "q \<noteq> a"
  shows "node_at (snd (renameSync a b s)) q = node_at s q"
proof -
  have bn: "node_at s b = None" "b \<noteq> ''.''" "b \<noteq> ''/''"
    using fresh by (auto simp: existsSync_def node_at_def)
  then have mb: "map_of (fs s) b = None" by (simp add: node_at_def)
  have qb: "q \<noteq> b" using q(1) fresh by auto
  have mv: "moved a (File c) k = (k = a)" for k by (simp add: moved_def)
  show ?thesis
  proof (cases "node_at s (path_dirname b)")
    case None
    then show ?thesis using src by (simp add: renameSync_def io_defs)
  next
    case (Some d)
    show ?thesis
    proof (cases d)
      case (File x)
      then show ?thesis using src Some by (simp add: renameSync_def io_defs)
    next
      case Dir
      then show ?thesis
        using src Some bn q(2) qb
        by (simp add: renameSync_def io_defs mv delete_absent[OF mb] node_at_def
            map_of_rename_key)
    qed
  qed
qed

text \<open>
  Claim C10. \<open>uniquePath\<close> always returns, and the path it returns does not exist in
  the state in which it is called. It is the destination joined with the file name when
  that is free, and otherwise with the stem, a counter in parentheses and the extension,
  for the least counter from 1 whose name is free. The step that moves an unmatched
  regular file therefore keeps every other existing path as it was: nothing in the
  \<^verbatim>\<open>other_files\<close> directory is overwritten.
\<close>

theorem uniquePath_fresh:
  "\<not> existsSync s (uniquePath s destination filename) \<and>
   (uniquePath s destination filename = path_join destination filename \<or>
    (existsSync s (path_join destination filename) \<and>
     (\<exists>k \<ge> 1.
        uniquePath s destination filename =
          path_join destination
            (parse_name filename @ ''('' @ show_nat k @ '')'' @ parse_ext filename) \<and>
        (\<forall>i. 1 \<le> i \<and> i < k \<longrightarrow>
           existsSync s (path_join destination
             (parse_name filename @ ''('' @ show_nat i @ '')'' @ parse_ext filename)))))) \<and>
   (node_at s (path_join inputDir file) = Some (File c) \<longrightarrow>
    existsSync s q \<longrightarrow> q \<noteq> path_join inputDir file \<longrightarrow>
      node_at (snd (moveOther inputDir otherFilesDir file s)) q = node_at s q)"
proof -
  have fresh: "\<not> existsSync s (uniquePath s d f)" for d f
    by (simp add: uniquePath_def uniquePath_loop_fresh)
  have shape: "uniquePath s destination filename = path_join destination filename \<or>
    (existsSync s (path_join destination filename) \<and>
     (\<exists>k \<ge> 1.
        uniquePath s destination filename =
          path_join destination
            (parse_name filename @ ''('' @ show_nat k @ '')'' @ parse_ext filename) \<and>
        (\<forall>i. 1 \<le> i \<and> i < k \<longrightarrow>
           existsSync s (path_join destination
             (parse_name filename @ ''('' @ show_nat i @ '')'' @ parse_ext filename)))))"
    using uniquePath_loop_shape[of s destination "parse_name filename" "parse_ext filename" 1 filename]
    by (simp add: uniquePath_def candidate_name_def)
  have move: "node_at (snd (moveOther inputDir otherFilesDir file s)) q = node_at s q"
    if src: "node_at s (path_join inputDir file) = Some (File c)"
      and q: "existsSync s q" "q \<noteq> path_join inputDir file"
  proof -
    let ?a = "path_join inputDir file"
    let ?b = "uniquePath s otherFilesDir (path_basename ?a)"
    have r: "node_at (snd (renameSync ?a ?b s)) q = node_at s q"
      by (rule renameSync_file_frame[OF src fresh q])
    have "fs (snd (io_then (renameSync ?a ?b) (say Log msg) s)) = fs (snd (renameSync ?a ?b s))"
      for msg
      by (cases "renameSync ?a ?b s"; cases "fst (renameSync ?a ?b s)")
         (auto simp: io_then_def io_bind_def say_def)
    then have "node_at (snd (io_then (renameSync ?a ?b) (say Log msg) s)) q =
               node_at (snd (renameSync ?a ?b s)) q" for msg
      by (simp add: node_at_def)
    with r show ?thesis
      by (simp add: moveOther_def Let_def ret_def)
  qed
  from fresh shape move show ?thesis by blast
qed

theorem uniquePath_fresh_witness:
  "uniquePath demo_taken ''output/other_files'' ''B.jpg'' = ''output/other_files/B(2).jpg'' \<and>
   \<not> existsSync demo_taken (uniquePath demo_taken ''output/other_files'' ''B.jpg'') \<and>
   node_at (snd (moveOther ''photos'' ''output/other_files'' ''B.jpg'' demo_taken))
     ''output/other_files/B.jpg'' = Some (File [7]) \<and>
   node_at (snd (moveOther ''photos'' ''output/other_files'' ''B.jpg'' demo_taken))
     ''output/other_files/B(2).jpg'' = Some (File [1])"
proof -
  have u: "uniquePath demo_taken ''output/other_files'' ''B.jpg'' = ''output/other_files/B(2).jpg''"
    by code_simp
  have h1: "node_at demo_taken (path_join ''photos'' ''B.jpg'') = Some (File [1])" by code_simp
  have h2: "existsSync demo_taken ''output/other_files/B.jpg''" by code_simp
  have h3: "''output/other_files/B.jpg'' \<noteq> path_join ''photos'' ''B.jpg''" by code_simp
  have n: "node_at demo_taken ''output/other_files/B.jpg'' = Some (File [7])" by code_simp
  have m: "node_at (snd (moveOther ''photos'' ''output/other_files'' ''B.jpg'' demo_taken))
     ''output/other_files/B(2).jpg'' = Some (File [1])" by code_simp
  from uniquePath_fresh[of demo_taken "''output/other_files''" "''B.jpg''" "''photos''"
      "''B.jpg''" "[1]" "''output/other_files/B.jpg''" "''output/other_files''"]
    h1 h2 h3 n m u
  show ?thesis by simp
qed

section \<open>A bad directory ends the run before anything is touched\<close>

lemma existsSync_console [simp]: "existsSync (s\<lparr>console := c\<rparr>) p = existsSync s p"
  by (simp add: existsSync_def)

lemma isDirectory_console [simp]: "isDirectory (s\<lparr>console := c\<rparr>) p = isDirectory s p"
  by (simp add: isDirectory_def)

text \<open>
  Claim C8. The input directory is the trimmed first answer, or \<^verbatim>\<open>photos\<close> when that is
  empty. When it does not exist, \<open>main\<close> exits with status 1 after the message
  \<^verbatim>\<open>Directory does not exist\<close>; when it exists and is not a directory, \<open>main\<close> exits with
  status 1 after the message \<^verbatim>\<open>Path is not a directory\<close>. In both cases the final state is
  the initial one but for the console: no file is read, written, listed or moved.
  \<open>processDirectory\<close> behaves in the same way on its input directory.
\<close>

theorem main_bad_directory:
  "let inputDir = (if trim (inputDirAnswer ans) = [] then ''photos''
                   else trim (inputDirAnswer ans))
   in (\<not> existsSync s inputDir \<longrightarrow>
         main svc ans s =
           (Exited 1, s\<lparr>console := console s @
              [(Log, welcome_line),
               (Error, ''Directory does not exist: '' @ inputDir),
               (Error, ''Invalid directory path.'')]\<rparr>)) \<and>
      (existsSync s inputDir \<and> \<not> isDirectory s inputDir \<longrightarrow>
         main svc ans s =
           (Exited 1, s\<lparr>console := console s @
              [(Log, welcome_line),
               (Error, ''Path is not a directory: '' @ inputDir),
               (Error, ''Invalid directory path.'')]\<rparr>)) \<and>
      (dir \<noteq> [] \<and> \<not> existsSync s dir \<longrightarrow>
         processDirectory svc dir outputDir moveOtherImages convertAllHeic deleteConverted s =
           (Exited 1, s\<lparr>console := console s @
              [(Log, ''Processing files in: '' @ dir),
               (Error, ''Directory does not exist: '' @ dir),
               (Error, ''Invalid input directory.'')]\<rparr>)) \<and>
      (dir \<noteq> [] \<and> existsSync s dir \<and> \<not> isDirectory s dir \<longrightarrow>
         processDirectory svc dir outputDir moveOtherImages convertAllHeic deleteConverted s =
           (Exited 1, s\<lparr>console := console s @
              [(Log, ''Processing files in: '' @ dir),
               (Error, ''Path is not a directory: '' @ dir),
               (Error, ''Invalid input directory.'')]\<rparr>))"
proof -
  let ?d = "if trim (inputDirAnswer ans) = [] then ''photos'' else trim (inputDirAnswer ans)"
  have ne: "?d \<noteq> []" by simp
  have m1: "\<not> existsSync s ?d \<Longrightarrow> main svc ans s =
           (Exited 1, s\<lparr>console := console s @
              [(Log, welcome_line),
               (Error, ''Directory does not exist: '' @ ?d),
               (Error, ''Invalid directory path.'')]\<rparr>)"
    using ne
    by (simp add: main_def validateDirectory_def io_defs welcome_line_def Let_def)
  have m2: "existsSync s ?d \<and> \<not> isDirectory s ?d \<Longrightarrow> main svc ans s =
           (Exited 1, s\<lparr>console := console s @
              [(Log, welcome_line),
               (Error, ''Path is not a directory: '' @ ?d),
               (Error, ''Invalid directory path.'')]\<rparr>)"
    using ne
    by (simp add: main_def validateDirectory_def io_defs welcome_line_def Let_def)
  have p1: "dir \<noteq> [] \<and> \<not> existsSync s dir \<Longrightarrow>
         processDirectory svc dir outputDir moveOtherImages convertAllHeic deleteConverted s =
           (Exited 1, s\<lparr>console := console s @
              [(Log, ''Processing files in: '' @ dir),
               (Error, ''Directory does not exist: '' @ dir),
               (Error, ''Invalid input directory.'')]\<rparr>)"
    by (simp add: processDirectory_def validateDirectory_def io_defs)
  have p2: "dir \<noteq> [] \<and> existsSync s dir \<and> \<not> isDirectory s dir \<Longrightarrow>
         processDirectory svc dir outputDir moveOtherImages convertAllHeic deleteConverted s =
           (Exited 1, s\<lparr>console := console s @
              [(Log, ''Processing files in: '' @ dir),
               (Error, ''Path is not a directory: '' @ dir),
               (Error, ''Invalid input directory.'')]\<rparr>)"
    by (simp add: processDirectory_def validateDirectory_def io_defs)
  show ?thesis unfolding Let_def using m1 m2 p1 p2 by blast
qed

theorem main_bad_directory_witness:
  "main demo_services (demo_answers\<lparr>inputDirAnswer := ''  missing ''\<rparr>) demo =
     (Exited 1, demo\<lparr>console := console demo @
        [(Log, welcome_line),
         (Error, ''Directory does not exist: missing''),
         (Error, ''Invalid directory path.'')]\<rparr>) \<and>
   main demo_services (demo_answers\<lparr>inputDirAnswer := ''photos/IMG_0001.jpg''\<rparr>) demo =
     (Exited 1, demo\<lparr>console := console demo @
        [(Log, welcome_line),
         (Error, ''Path is not a directory: photos/IMG_0001.jpg''),
         (Error, ''Invalid directory path.'')]\<rparr>)"
proof -
  have t1: "trim ''  missing '' = ''missing''" by code_simp
  have n1: "\<not> existsSync demo ''missing''" by code_simp
  have t2: "trim ''photos/IMG_0001.jpg'' = ''photos/IMG_0001.jpg''" by code_simp
  have n2: "existsSync demo ''photos/IMG_0001.jpg''"
    "\<not> isDirectory demo ''photos/IMG_0001.jpg''" by code_simp+
  have a: "main demo_services (demo_answers\<lparr>inputDirAnswer := ''  missing ''\<rparr>) demo =
     (Exited 1, demo\<lparr>console := console demo @
        [(Log, welcome_line),
         (Error, ''Directory does not exist: missing''),
         (Error, ''Invalid directory path.'')]\<rparr>)"
    using main_bad_directory[where ans = "demo_answers\<lparr>inputDirAnswer := ''  missing ''\<rparr>"
        and s = demo and svc = demo_services and dir = "''missing''"] n1
    by (simp add: Let_def t1)
  have b: "main demo_services (demo_answers\<lparr>inputDirAnswer := ''photos/IMG_0001.jpg''\<rparr>) demo =
     (Exited 1, demo\<lparr>console := console demo @
        [(Log, welcome_line),
         (Error, ''Path is not a directory: photos/IMG_0001.jpg''),
         (Error, ''Invalid directory path.'')]\<rparr>)"
    using main_bad_directory[where ans = "demo_answers\<lparr>inputDirAnswer := ''photos/IMG_0001.jpg''\<rparr>"
        and s = demo and svc = demo_services and dir = "''missing''"] n2
    by (simp add: Let_def t2)
  from a b show ?thesis by simp
qed

section \<open>Failures of a single pair\<close>

text \<open>
  Claim C5. A failure that affects a single pair must not abort the batch: the process
  still exits with status 0 and the failed pair is in the written report. The code does
  not keep this. In the first run below the transcoder fails on \<^verbatim>\<open>photos/A.heic\<close> and
  the answers ask for converted HEICs to be deleted and for the other files to be
  moved: \<open>convertHeicToJpeg\<close> records the file in the list of problematic files, line
  186 deletes it all the same, and \<^verbatim>\<open>renameSync\<close> at line 223 then throws \<^verbatim>\<open>ENOENT\<close>,
  which nothing catches. In the second run the metadata tool fails and the rejection of
  \<open>addXmpMetadata\<close> is caught nowhere. Neither run reaches \<^verbatim>\<open>process.exit(0)\<close>, and
  neither writes \<^verbatim>\<open>problematic_files.txt\<close>.
\<close>

theorem main_aborts_on_pair_failure:
  "fst (main failing_transcoder move_and_delete_answers demo_heic) =
     Threw (FsError ENOENT ''photos/A.heic'') \<and>
   problematicFiles (snd (main failing_transcoder move_and_delete_answers demo_heic)) =
     [''photos/A.heic''] \<and>
   node_at (snd (main failing_transcoder move_and_delete_answers demo_heic))
     ''problematic_files.txt'' = None \<and>
   fst (main failing_exiftool demo_answers demo) =
     Threw (MetadataWriteError ''output/IMG_0001.jpg'') \<and>
   node_at (snd (main failing_exiftool demo_answers demo)) ''problematic_files.txt'' = None"
  by code_simp

text \<open>
  The handling that the code does have: \<open>convertHeicToJpeg\<close> turns every failure of
  the transcoder into an entry of the list of problematic files and returns, and the
  same directory with the two options off ends with status 0 and the report written.
\<close>

lemma convertHeicToJpeg_never_throws:
  "(\<exists>j. fst (convertHeicToJpeg svc heicPath s) = Ok (Some j) \<and>
        problematicFiles (snd (convertHeicToJpeg svc heicPath s)) = problematicFiles s) \<or>
   (fst (convertHeicToJpeg svc heicPath s) = Ok None \<and>
    problematicFiles (snd (convertHeicToJpeg svc heicPath s)) = problematicFiles s @ [heicPath])"
  by (auto simp: convertHeicToJpeg_def heicconvert_call_def writeFileSync_def io_defs
      push_problematic_def Let_def split: option.splits node.splits)

lemma report_written_when_nothing_throws:
  "fst (main failing_transcoder demo_answers demo_heic) = Exited 0 \<and>
   node_at (snd (main failing_transcoder demo_answers demo_heic)) ''problematic_files.txt'' =
     Some (File (bytes_of (report_header @ [CHR 0x0A] @ ''photos/A.heic'')))"
  by code_simp

end
